theory Spec2Isabelle
  imports Complex_Main
begin

section \<open>DelayDaemon: a shallow embedding of \<open>main.c\<close>\<close>

text \<open>
  The program grabs a Linux input device, gives every event it reads a delay, and has a
  detached thread write the event to a uinput clone of the device once the delay is over.
  The C program keeps its state in global variables; the model keeps them in one record,
  \<open>world\<close>, together with the parts of the environment the program reads and writes
  (the pseudo-random generator, the event queue of the device, fresh heap memory, the
  console, the file system). Every function of \<open>main.c\<close> becomes a function that takes
  the world and returns the new one.
\<close>

subsection \<open>C integers\<close>

text \<open>
  \<open>int\<close> is 32 bits wide on the Linux targets of the program. Values are modelled as
  HOL integers; \<open>wrap32\<close> is the two's complement wrap-around of a result that leaves
  the range (undefined in ISO C, wrapping in the code \<open>gcc\<close> emits for \<open>+\<close>, \<open>-\<close>, \<open>*\<close>).
  \<open>c_rem\<close> is C's \<open>%\<close>: the remainder of the division that truncates towards zero.
\<close>

definition INT_MIN :: int where
  "INT_MIN = - 2147483648"

definition INT_MAX :: int where
  "INT_MAX = 2147483647"

definition is_int :: "int \<Rightarrow> bool" where
  "is_int x = (INT_MIN \<le> x \<and> x \<le> INT_MAX)"

definition wrap32 :: "int \<Rightarrow> int" where
  "wrap32 x = (x + 2147483648) mod 4294967296 - 2147483648"

definition c_rem :: "int \<Rightarrow> int \<Rightarrow> int" where
  "c_rem a b = sgn a * (\<bar>a\<bar> mod \<bar>b\<bar>)"

definition c_div :: "int \<Rightarrow> int \<Rightarrow> int" where
  "c_div a b = sgn a * sgn b * (\<bar>a\<bar> div \<bar>b\<bar>)"

text \<open>
  The conversion of a \<open>double\<close> to \<open>int\<close> drops the fraction. A value outside the range
  of \<open>int\<close> is undefined in ISO C; the x86-64 instruction \<open>cvttsd2si\<close> yields \<open>INT_MIN\<close>.
\<close>

definition double_to_int :: "real \<Rightarrow> int" where
  "double_to_int r =
     (let t = (if r < 0 then \<lceil>r\<rceil> else \<lfloor>r\<rfloor>)
      in if is_int t then t else INT_MIN)"

subsection \<open>Constants of \<open>linux/input.h\<close>, \<open>errno.h\<close>, \<open>stdlib.h\<close> and libevdev\<close>

definition EV_SYN :: int where "EV_SYN = 0"
definition EV_KEY :: int where "EV_KEY = 1"
definition EV_REL :: int where "EV_REL = 2"
definition EV_MSC :: int where "EV_MSC = 4"
definition SYN_REPORT :: int where "SYN_REPORT = 0"
definition ENODEV :: int where "ENODEV = 19"
definition LIBEVDEV_READ_STATUS_SUCCESS :: int where "LIBEVDEV_READ_STATUS_SUCCESS = 0"
definition LIBEVDEV_READ_STATUS_SYNC :: int where "LIBEVDEV_READ_STATUS_SYNC = 1"
definition RAND_MAX :: int where "RAND_MAX = 2147483647"

subsection \<open>Data\<close>

text \<open>The struct \<open>delayed_event\<close> (lines 34-42) and libevdev's \<open>struct input_event\<close>.\<close>

record delayed_event =
  ev_fd :: int
  ev_type :: int
  ev_code :: int
  ev_value :: int
  ev_delay :: int
  ev_timestamp :: nat

record input_event =
  time_sec :: int
  time_usec :: int
  ie_type :: int
  ie_code :: int
  ie_value :: int

text \<open>
  The struct \<open>event_vector\<close> (lines 44-49). \<open>vec_events\<close> holds the cells of the
  allocated array that have been written, cell 0 first; the cells beyond are never read.
\<close>

record event_vector =
  vec_size :: nat
  vec_used :: nat
  vec_events :: "delayed_event list"

datatype distribution_kind = dist_linear | dist_normal

datatype fnode = Regular string | Fifo

text \<open>
  The globals of \<open>main.c\<close> (lines 51-85), the static variables of \<open>randn\<close>, the locals
  of \<open>main\<close> and \<open>handle_fifo\<close> that live across loop iterations, and the environment:
  \<^item> \<open>rng\<close>: the values the coming calls of \<open>rand()\<close> return (each taken modulo
    \<open>RAND_MAX + 1\<close>), so that any state of the generator is some \<open>rng\<close>;
  \<^item> \<open>heap\<close>: the contents of the blocks the coming calls of \<open>malloc\<close> return;
  \<^item> \<open>evdev\<close>: what the coming calls of \<open>libevdev_next_event\<close> return, the status and,
    when an event is delivered, the event; on an empty queue the call blocks;
  \<^item> \<open>out\<close>: the text written to the console;
  \<^item> \<open>files\<close>: the file system, and \<open>unwritable\<close>, the paths that cannot be created
    or opened for writing;
  \<^item> \<open>tasks\<close>: the arguments of the detached threads created so far, oldest first.
\<close>

record world =
  ev :: event_vector
  virtual_fd :: int
  fifo_path :: "string option"
  fifo_thread :: bool
  distribution :: distribution_kind
  mu :: real
  sigma :: real
  min_delay_click :: int
  max_delay_click :: int
  min_delay_move :: int
  max_delay_move :: int
  randn_X1 :: real
  randn_X2 :: real
  randn_call :: int
  inputEvent :: input_event
  fifo_buffer :: string
  rng :: "nat \<Rightarrow> nat"
  heap :: "nat \<Rightarrow> delayed_event"
  evdev :: "(int \<times> input_event option) list"
  out :: string
  files :: "string \<Rightarrow> fnode option"
  unwritable :: "string set"
  tasks :: "delayed_event list"

subsection \<open>Console output\<close>

definition nl :: string where
  "nl = [CHR 0x0A]"

fun show_nat :: "nat \<Rightarrow> string" where
  "show_nat n =
     (if n < 10 then [''0123456789'' ! n]
      else show_nat (n div 10) @ [''0123456789'' ! (n mod 10)])"

declare show_nat.simps [simp del]

definition show_int :: "int \<Rightarrow> string" where
  "show_int i = (if i < 0 then CHR ''-'' # show_nat (nat (- i)) else show_nat (nat i))"

definition printf :: "string \<Rightarrow> world \<Rightarrow> world" where
  "printf s w = w\<lparr>out := out w @ s\<rparr>"

subsection \<open>The delay model: \<open>rand\<close>, \<open>randn\<close>, \<open>calculate_delay\<close>\<close>

definition rand :: "world \<Rightarrow> int \<times> world" where
  "rand w = (int (rng w 0) mod (RAND_MAX + 1), w\<lparr>rng := (\<lambda>n. rng w (Suc n))\<rparr>)"

text \<open>
  The \<open>do ... while (W >= 1 || W == 0)\<close> of \<open>randn\<close> (lines 154-160). It returns
  \<open>U1\<close>, \<open>U2\<close>, \<open>W\<close> and the world. The \<open>double\<close>s are modelled by real numbers.
\<close>

partial_function (option) randn_polar :: "world \<Rightarrow> (real \<times> real \<times> real \<times> world) option" where
  "randn_polar w =
     (let U1 = - 1 + (real_of_int (fst (rand w)) / real_of_int RAND_MAX) * 2;
          w1 = snd (rand w);
          U2 = - 1 + (real_of_int (fst (rand w1)) / real_of_int RAND_MAX) * 2;
          w2 = snd (rand w1);
          W = U1 ^ 2 + U2 ^ 2
      in if W \<ge> 1 \<or> W = 0 then randn_polar w2 else Some (U1, U2, W, w2))"

text \<open>\<open>randn\<close> (lines 142-169): \<open>None\<close> when the polar loop never ends.\<close>

definition randn :: "real \<Rightarrow> real \<Rightarrow> world \<Rightarrow> (int \<times> world) option" where
  "randn m s w =
     (if randn_call w = 1
      then Some (double_to_int (m + s * randn_X2 w), w\<lparr>randn_call := 0\<rparr>)
      else (case randn_polar w of
              None \<Rightarrow> None
            | Some (U1, U2, W, w2) \<Rightarrow>
                (let mult = sqrt ((- 2 * ln W) / W);
                     w3 = w2\<lparr>randn_X1 := U1 * mult, randn_X2 := U2 * mult,
                             randn_call := (if randn_call w2 = 0 then 1 else 0)\<rparr>
                 in Some (double_to_int (m + s * randn_X1 w3), w3))))"

text \<open>The \<open>while (x < min || x > max)\<close> of \<open>calculate_delay\<close> (lines 181-184).\<close>

partial_function (option) normal_loop :: "int \<Rightarrow> int \<Rightarrow> int \<Rightarrow> world \<Rightarrow> (int \<times> world) option" where
  "normal_loop mn mx x w =
     (if x < mn \<or> x > mx
      then Option.bind (randn (mu w) (sigma w) w) (\<lambda>p. normal_loop mn mx (fst p) (snd p))
      else Some (x, w))"

text \<open>
  \<open>calculate_delay\<close> (lines 174-189): \<open>None\<close> when the call never returns. The last
  branch is the \<open>else return 0\<close> for a \<open>distribution\<close> that is neither enumerator.
\<close>

definition calculate_delay :: "int \<Rightarrow> int \<Rightarrow> world \<Rightarrow> (int \<times> world) option" where
  "calculate_delay mn mx w =
     (if mn = mx then Some (mn, w)
      else if distribution w = dist_linear
      then Some (wrap32 (mn + c_rem (fst (rand w)) (wrap32 (mx - mn))), snd (rand w))
      else if distribution w = dist_normal
      then (case normal_loop mn mx (- 1) w of
              None \<Rightarrow> None
            | Some (x, w') \<Rightarrow> Some (x, printf (show_int x @ nl) w'))
      else Some (0, w))"

subsection \<open>The event vector and the audit log\<close>

text \<open>\<open>init_vector\<close>, \<open>append_to_vector\<close> and \<open>free_vector\<close> (lines 88-111).\<close>

definition init_vector :: "nat \<Rightarrow> event_vector" where
  "init_vector n = \<lparr>vec_size = n, vec_used = 0, vec_events = []\<rparr>"

definition append_to_vector :: "event_vector \<Rightarrow> delayed_event \<Rightarrow> event_vector" where
  "append_to_vector v e =
     (let v1 = (if vec_used v \<ge> vec_size v then v\<lparr>vec_size := vec_size v * 2\<rparr> else v)
      in v1\<lparr>vec_events := take (vec_used v1) (vec_events v1) @ [e],
             vec_used := vec_used v1 + 1\<rparr>)"

definition free_vector :: "event_vector \<Rightarrow> event_vector" where
  "free_vector v = v\<lparr>vec_events := [], vec_used := 0, vec_size := 0\<rparr>"

definition log_file :: string where
  "log_file = ''event_log.csv''"

definition header :: string where
  "header = ''timestamp;delay;type;value;code'' @ nl"

text \<open>One \<open>fprintf(file, "%lu;%li;%i;%i;%i\n", ...)\<close> (lines 128-134).\<close>

definition format_event :: "delayed_event \<Rightarrow> string" where
  "format_event e =
     show_nat (ev_timestamp e) @ '';'' @ show_int (ev_delay e) @ '';'' @
     show_int (ev_type e) @ '';'' @ show_int (ev_value e) @ '';'' @
     show_int (ev_code e) @ nl"

text \<open>Writing to a stream opened with \<open>fopen(path, "a")\<close>.\<close>

definition fappend :: "string \<Rightarrow> string \<Rightarrow> world \<Rightarrow> world" where
  "fappend p s w =
     (case files w p of
        None \<Rightarrow> w\<lparr>files := (files w)(p \<mapsto> Regular s)\<rparr>
      | Some (Regular c) \<Rightarrow> w\<lparr>files := (files w)(p \<mapsto> Regular (c @ s))\<rparr>
      | Some Fifo \<Rightarrow> w)"

text \<open>
  \<open>write_event_log\<close> (lines 113-138), called on the global \<open>ev\<close>. The result of
  \<open>fopen\<close> is not checked: where the file cannot be opened the stream is \<open>NULL\<close> and the
  process crashes, which is the result \<open>None\<close>.
\<close>

definition write_event_log :: "world \<Rightarrow> world option" where
  "write_event_log w =
     (if log_file \<in> unwritable w then None
      else
        let w1 = (if files w log_file = None
                  then w\<lparr>files := (files w)(log_file \<mapsto> Regular header)\<rparr> else w);
            w2 = fappend log_file
                   (concat (map format_event (take (vec_used (ev w1)) (vec_events (ev w1))))) w1
        in Some (w2\<lparr>ev := free_vector (ev w2)\<rparr>))"

subsection \<open>The timer thread\<close>

text \<open>
  What a thread does, in program order. \<open>Printf_write_failed e\<close> is the
  \<open>printf("Failed to write uinput event: %s\n", strerror(e))\<close> of line 238.
\<close>

datatype action =
  Usleep nat
| Uinput_write_event int int int
| Printf_write_failed int

text \<open>
  \<open>invoke_delayed_evdev_event\<close> (lines 226-248); \<open>rc\<close> is what the first
  \<open>libevdev_uinput_write_event\<close> returns. \<open>eventDelay * 1000\<close> is an \<open>int\<close> product,
  converted to the unsigned 32-bit \<open>useconds_t\<close>.
\<close>

definition invoke_delayed_evdev_event :: "delayed_event \<Rightarrow> int \<Rightarrow> action list" where
  "invoke_delayed_evdev_event event rc =
     (let eventDelay = wrap32 (ev_delay event)
      in [Usleep (nat (wrap32 (eventDelay * 1000) mod 4294967296)),
          Uinput_write_event (ev_type event) (ev_code event) (ev_value event)] @
         (if rc \<noteq> 0 then [Printf_write_failed (- rc)] else []) @
         [Uinput_write_event EV_SYN SYN_REPORT 0])"

definition is_write :: "action \<Rightarrow> bool" where
  "is_write a = (case a of Uinput_write_event t c v \<Rightarrow> True | _ \<Rightarrow> False)"

subsection \<open>Capture: \<open>get_event\<close> and the loop of \<open>main\<close>\<close>

text \<open>
  The \<open>while (rc == LIBEVDEV_READ_STATUS_SYNC)\<close> of \<open>get_event\<close> (lines 266-269), on the
  queue of the coming results of \<open>libevdev_next_event\<close>. \<open>None\<close>: the queue is used up.
\<close>

fun sync_loop ::
  "int \<Rightarrow> input_event \<Rightarrow> (int \<times> input_event option) list \<Rightarrow>
   (int \<times> input_event \<times> (int \<times> input_event option) list) option" where
  "sync_loop rc e [] = (if rc = LIBEVDEV_READ_STATUS_SYNC then None else Some (rc, e, []))"
| "sync_loop rc e (x # q) =
     (if rc = LIBEVDEV_READ_STATUS_SYNC
      then sync_loop (fst x) (case snd x of None \<Rightarrow> e | Some e' \<Rightarrow> e') q
      else Some (rc, e, x # q))"

text \<open>
  \<open>get_event\<close> (lines 250-278), called on \<open>&inputEvent\<close>. It returns \<open>-1\<close> when the
  device is gone and \<open>1\<close> otherwise, also for any other negative status.
  \<open>None\<close>: the call blocks for ever.
\<close>

definition get_event :: "world \<Rightarrow> (int \<times> world) option" where
  "get_event w =
     (case evdev w of
        [] \<Rightarrow> None
      | x # q \<Rightarrow>
          (let rc = fst x;
               e = (case snd x of None \<Rightarrow> inputEvent w | Some e' \<Rightarrow> e');
               w1 = (if rc = LIBEVDEV_READ_STATUS_SYNC
                     then printf (''Warning, syn dropped: (-1) Unknown error -1'' @ nl) w
                     else w)
           in case sync_loop rc e q of
                None \<Rightarrow> None
              | Some (rc', e', q') \<Rightarrow>
                  (let w2 = w1\<lparr>inputEvent := e', evdev := q'\<rparr>
                   in if rc' = - ENODEV
                      then Some (- 1, printf (''Device disconnected: (19) No such device'' @ nl) w2)
                      else Some (1, w2))))"

definition malloc :: "world \<Rightarrow> delayed_event \<times> world" where
  "malloc w = (heap w 0, w\<lparr>heap := (\<lambda>n. heap w (Suc n))\<rparr>)"

text \<open>
  The assignment of \<open>event->delay\<close> (lines 612-613): for a type that is neither \<open>EV_KEY\<close>
  nor \<open>EV_REL\<close> nothing is assigned and the field keeps what \<open>malloc\<close> returned.
\<close>

definition assign_delay :: "delayed_event \<Rightarrow> world \<Rightarrow> (delayed_event \<times> world) option" where
  "assign_delay e w =
     (if ev_type e = EV_KEY
      then map_option (\<lambda>p. (e\<lparr>ev_delay := fst p\<rparr>, snd p))
             (calculate_delay (min_delay_click w) (max_delay_click w) w)
      else if ev_type e = EV_REL
      then map_option (\<lambda>p. (e\<lparr>ev_delay := fst p\<rparr>, snd p))
             (calculate_delay (min_delay_move w) (max_delay_move w) w)
      else Some (e, w))"

text \<open>
  The body of the \<open>if\<close> in the loop of \<open>main\<close> (lines 606-619). The thread gets the
  pointer to the event, so it sees the struct as it is after line 618; the vector gets a copy.
\<close>

definition schedule :: "world \<Rightarrow> world option" where
  "schedule w =
     (let e0 = fst (malloc w);
          w1 = snd (malloc w);
          ie = inputEvent w1;
          e1 = e0\<lparr>ev_fd := virtual_fd w1, ev_type := ie_type ie,
                  ev_code := ie_code ie, ev_value := ie_value ie\<rparr>
      in case assign_delay e1 w1 of
           None \<Rightarrow> None
         | Some (e2, w2) \<Rightarrow>
             (let e3 = e2\<lparr>ev_timestamp :=
                          nat ((time_sec ie * 1000 + c_div (time_usec ie) 1000)
                               mod 18446744073709551616)\<rparr>
              in Some (w2\<lparr>tasks := tasks w2 @ [e3], ev := append_to_vector (ev w2) e3\<rparr>)))"

text \<open>One iteration of the loop of \<open>main\<close> (lines 602-620). \<open>None\<close>: it never ends.\<close>

definition loop_body :: "world \<Rightarrow> world option" where
  "loop_body w =
     (case get_event w of
        None \<Rightarrow> None
      | Some (err, w1) \<Rightarrow>
          (if err > - 1 \<and> ie_type (inputEvent w1) \<noteq> EV_SYN then schedule w1 else Some w1))"

text \<open>
  How far the process has come. \<open>Exited c\<close>: it has ended with status \<open>c\<close>.
  \<open>Running\<close>: it is in the loop of \<open>main\<close>, waiting in \<open>read\<close>. \<open>Stuck\<close>: it is in an
  iteration that never ends. \<open>Crashed\<close>: it has been killed by \<open>SIGSEGV\<close>.
\<close>

datatype outcome = Exited int world | Running world | Stuck | Crashed world

text \<open>
  \<open>onExit\<close> (lines 455-469), the handler of \<open>SIGINT\<close>. \<open>fifo_thread\<close> is assigned by
  the \<open>pthread_create\<close> of \<open>init_fifo\<close> alone; where no thread has been created it is a
  null \<open>pthread_t\<close>, which \<open>pthread_cancel\<close> dereferences: the process is killed after
  the log has been written. \<open>ioctl\<close> and \<open>close\<close> act on \<open>virtual_fd\<close>, which no
  function called by \<open>main\<close> assigns.
\<close>

definition onExit :: "world \<Rightarrow> outcome" where
  "onExit w =
     (case write_event_log w of
        None \<Rightarrow> Crashed w
      | Some w1 \<Rightarrow>
          (let w2 = printf ''foo'' w1
           in if \<not> fifo_thread w2 then Crashed w2
              else
                let w3 = w2\<lparr>fifo_thread := False\<rparr>;
                    w4 = (case fifo_path w3 of
                            None \<Rightarrow> w3
                          | Some p \<Rightarrow> w3\<lparr>files := (files w3)(p := None)\<rparr>)
                in Exited 0 w4))"

text \<open>
  What happens to the process while it is in the loop of \<open>main\<close>: \<open>Tick r\<close>, the
  \<open>read\<close> on the real-time clock returns \<open>r\<close> (line 597); \<open>Sigint\<close>, the interrupt
  signal arrives.
\<close>

datatype occurrence = Tick int | Sigint

text \<open>
  The loop of \<open>main\<close> (lines 597-622) on the occurrences so far. \<open>Exited 0\<close> after a
  \<open>Tick 0\<close> is the \<open>return 0\<close> of line 622.
\<close>

fun main_loop :: "occurrence list \<Rightarrow> world \<Rightarrow> outcome" where
  "main_loop [] w = Running w"
| "main_loop (Sigint # os) w = onExit w"
| "main_loop (Tick r # os) w =
     (if r = 0 then Exited 0 w
      else case loop_body w of None \<Rightarrow> Stuck | Some w' \<Rightarrow> main_loop os w')"

subsection \<open>The reconfiguration channel\<close>

text \<open>
  \<open>sscanf(buffer, "%d %d %d %d", ...)\<close>. A \<open>%d\<close> skips white space, takes an optional
  sign and then decimal digits, at least one; white space in the format skips white
  space, which the following \<open>%d\<close> does anyway. A number outside the range of \<open>int\<close>
  is undefined in ISO C; glibc converts the digits with \<open>strtol\<close>, which saturates at the
  bounds of the 64-bit \<open>long\<close>, and stores the low 32 bits of that \<open>long\<close>.
\<close>

definition LONG_MIN :: int where
  "LONG_MIN = - 9223372036854775808"

definition LONG_MAX :: int where
  "LONG_MAX = 9223372036854775807"

definition strtol_value :: "int \<Rightarrow> int" where
  "strtol_value v = (if v < LONG_MIN then LONG_MIN else if v > LONG_MAX then LONG_MAX else v)"

definition isspace :: "char \<Rightarrow> bool" where
  "isspace c = (c \<in> set [CHR '' '', CHR 0x09, CHR 0x0A, CHR 0x0B, CHR 0x0C, CHR 0x0D])"

definition isdigit :: "char \<Rightarrow> bool" where
  "isdigit c = (c \<in> set ''0123456789'')"

definition digit_value :: "char \<Rightarrow> int" where
  "digit_value c = int (of_char c) - 48"

definition decimal :: "string \<Rightarrow> int" where
  "decimal ds = foldl (\<lambda>a c. 10 * a + digit_value c) 0 ds"

definition scan_d :: "string \<Rightarrow> (int \<times> string) option" where
  "scan_d s =
     (let s1 = dropWhile isspace s;
          neg = (case s1 of c # r \<Rightarrow> c = CHR ''-'' | [] \<Rightarrow> False);
          s2 = (case s1 of c # r \<Rightarrow> (if c = CHR ''-'' \<or> c = CHR ''+'' then r else s1) | [] \<Rightarrow> s1);
          ds = takeWhile isdigit s2
      in if ds = [] then None
         else Some (wrap32 (strtol_value (if neg then - decimal ds else decimal ds)),
                    dropWhile isdigit s2))"

text \<open>
  Up to \<open>n\<close> conversions \<open>%d\<close> in a row: the values of those that succeed before the
  first that fails, and the text left unread.
\<close>

fun scan_ints :: "nat \<Rightarrow> string \<Rightarrow> int list \<times> string" where
  "scan_ints 0 s = ([], s)"
| "scan_ints (Suc n) s =
     (case scan_d s of
        None \<Rightarrow> ([], s)
      | Some (v, r) \<Rightarrow> (v # fst (scan_ints n r), snd (scan_ints n r)))"

text \<open>The string a \<open>char\<close> array holds: the bytes before the first \<open>NUL\<close>.\<close>

definition c_string :: "string \<Rightarrow> string" where
  "c_string b = takeWhile (\<lambda>c. c \<noteq> CHR 0x00) b"

text \<open>
  The text begins, after white space, with something no \<open>%d\<close> can convert, whatever
  follows the text: a character that is neither a sign nor a digit, or a sign before a
  character that is not a digit.
\<close>

definition mismatch :: "string \<Rightarrow> bool" where
  "mismatch r = (let r1 = dropWhile isspace r in r1 \<noteq> [] \<and> r1 \<noteq> ''-'' \<and> r1 \<noteq> ''+'')"

text \<open>
  The assignments of lines 300-307, one step each, in program order: the four stores
  and the two clamps.
\<close>

definition fifo_stores :: "int \<Rightarrow> int \<Rightarrow> int \<Rightarrow> int \<Rightarrow> (world \<Rightarrow> world) list" where
  "fifo_stores a b c d =
     [(\<lambda>w. w\<lparr>min_delay_click := a\<rparr>),
      (\<lambda>w. w\<lparr>max_delay_click := b\<rparr>),
      (\<lambda>w. w\<lparr>min_delay_move := c\<rparr>),
      (\<lambda>w. w\<lparr>max_delay_move := d\<rparr>),
      (\<lambda>w. if max_delay_click w < min_delay_click w
            then w\<lparr>max_delay_click := min_delay_click w\<rparr> else w),
      (\<lambda>w. if max_delay_move w < min_delay_move w
            then w\<lparr>max_delay_move := min_delay_move w\<rparr> else w)]"

definition run_stores :: "(world \<Rightarrow> world) list \<Rightarrow> world \<Rightarrow> world" where
  "run_stores fs w = foldl (\<lambda>w f. f w) w fs"

text \<open>
  One iteration of the \<open>while(1)\<close> of \<open>handle_fifo\<close> (lines 288-317). \<open>n\<close> is what
  \<open>read(fifo_fd, buffer, 80)\<close> returns and \<open>data\<close> the bytes it delivers: they replace
  the first \<open>n\<close> bytes of \<open>buffer\<close>, the others stay as they are. \<open>sscanf\<close> reads the
  buffer up to its first \<open>NUL\<close>; what lies behind a buffer without one is not modelled.
\<close>

definition handle_fifo_step :: "int \<times> string \<Rightarrow> world \<Rightarrow> world" where
  "handle_fifo_step m w =
     (let n = fst m; data = snd m
      in if n \<le> 0 then w
         else
           let buffer = take 80 (take (nat n) data @ drop (nat n) (fifo_buffer w));
               w1 = w\<lparr>fifo_buffer := buffer\<rparr>;
               vs = fst (scan_ints 4 (c_string buffer))
           in if length vs = 4
              then
                let w2 = run_stores (fifo_stores (vs ! 0) (vs ! 1) (vs ! 2) (vs ! 3)) w1
                in printf (''set new values: '' @ show_int (min_delay_click w2) @ '' '' @
                           show_int (max_delay_click w2) @ '' '' @
                           show_int (min_delay_move w2) @ '' '' @
                           show_int (max_delay_move w2) @ nl) w2
              else printf (''could not set new delays - bad data structure'' @ nl) w1)"

text \<open>\<open>handle_fifo\<close> (lines 281-318) on the reads so far; the loop has no exit.\<close>

fun handle_fifo :: "(int \<times> string) list \<Rightarrow> world \<Rightarrow> world" where
  "handle_fifo [] w = w"
| "handle_fifo (m # ms) w = handle_fifo ms (handle_fifo_step m w)"

text \<open>
  The states of the globals another thread can find while the stores run: before the
  first, between two of them, after the last.
\<close>

fun store_states :: "(world \<Rightarrow> world) list \<Rightarrow> world \<Rightarrow> world list" where
  "store_states [] w = [w]"
| "store_states (f # fs) w = w # store_states fs (f w)"

text \<open>What the loop of \<open>main\<close> reads for a call of \<open>calculate_delay\<close> (lines 612-613).\<close>

definition delay_config :: "world \<Rightarrow> int \<times> int \<times> int \<times> int" where
  "delay_config w = (min_delay_click w, max_delay_click w, min_delay_move w, max_delay_move w)"

definition atomic_replacement :: "world \<Rightarrow> int \<Rightarrow> int \<Rightarrow> int \<Rightarrow> int \<Rightarrow> bool" where
  "atomic_replacement w a b c d =
     (\<forall>s \<in> set (store_states (fifo_stores a b c d) w).
        delay_config s = delay_config w \<or>
        delay_config s = delay_config (run_stores (fifo_stores a b c d) w))"

text \<open>
  \<open>init_fifo\<close> (lines 323-333): \<open>unlink\<close>, \<open>mkfifo\<close>, and the thread that runs
  \<open>handle_fifo\<close>.
\<close>

definition init_fifo :: "world \<Rightarrow> int \<times> world" where
  "init_fifo w =
     (case fifo_path w of
        None \<Rightarrow> (0, w)
      | Some p \<Rightarrow>
          (let w1 = w\<lparr>files := (files w)(p := None)\<rparr>
           in if p \<in> unwritable w1 then (0, w1)
              else (1, w1\<lparr>files := (files w1)(p \<mapsto> Fifo), fifo_thread := True\<rparr>)))"

fun strcmp :: "string \<Rightarrow> string \<Rightarrow> int" where
  "strcmp [] [] = 0"
| "strcmp [] (b # bs) = - 1"
| "strcmp (a # as) [] = 1"
| "strcmp (a # as) (b # bs) =
     (if a = b then strcmp as bs
      else if (of_char a :: nat) < of_char b then - 1 else 1)"

text \<open>
  The part of \<open>main\<close> that reads the FIFO argument (lines 535-542); \<open>argc\<close> is the
  length of \<open>argv\<close>. \<open>Some 1\<close> is the \<open>return 1\<close> of line 540.
\<close>

definition main_fifo_arg :: "string list \<Rightarrow> world \<Rightarrow> int option \<times> world" where
  "main_fifo_arg argv w =
     (if length argv > 7
      then (if strcmp (argv ! 7) ''none'' = 0
            then (let w1 = w\<lparr>fifo_path := Some (argv ! 7)\<rparr>;
                      r = init_fifo w1
                  in if fst r = 0 then (Some 1, snd r) else (None, snd r))
            else (None, w))
      else (None, w))"

subsection \<open>A concrete world\<close>

text \<open>
  The world after the start-up of \<open>latency_daemon /dev/input/event5 50 50 0 0\<close>:
  the vector of \<open>init_vector(&ev, 10)\<close>, the four delays, \<open>mu\<close> and \<open>sigma\<close> of lines
  552-554, no FIFO, an empty directory, and an environment of zeros.
\<close>

definition zero_event :: delayed_event where
  "zero_event = \<lparr>ev_fd = 0, ev_type = 0, ev_code = 0, ev_value = 0, ev_delay = 0,
                 ev_timestamp = 0\<rparr>"

definition zero_input :: input_event where
  "zero_input = \<lparr>time_sec = 0, time_usec = 0, ie_type = 0, ie_code = 0, ie_value = 0\<rparr>"

definition world0 :: world where
  "world0 =
     \<lparr>ev = init_vector 10, virtual_fd = - 1, fifo_path = None, fifo_thread = False,
      distribution = dist_linear, mu = 50, sigma = 5 / 2,
      min_delay_click = 50, max_delay_click = 50, min_delay_move = 0, max_delay_move = 0,
      randn_X1 = 0, randn_X2 = 0, randn_call = 0, inputEvent = zero_input,
      fifo_buffer = replicate 80 (CHR 0x00), rng = (\<lambda>n. 0), heap = (\<lambda>n. zero_event),
      evdev = [], out = [], files = (\<lambda>p. None), unwritable = {}, tasks = []\<rparr>"

subsection \<open>Worlds for the truncated normal distribution\<close>

text \<open>
  The result of the \<open>n+1\<close>-th of the coming calls \<open>randn(mu, sigma)\<close>, and the world
  after it.
\<close>

fun draws :: "nat \<Rightarrow> world \<Rightarrow> (int \<times> world) option" where
  "draws 0 w = randn (mu w) (sigma w) w"
| "draws (Suc n) w = Option.bind (randn (mu w) (sigma w) w) (\<lambda>p. draws n (snd p))"

text \<open>
  The world after the start-up of \<open>latency_daemon /dev/input/event5 0 0 5 10 n\<close>:
  lines 552-554 give \<open>mu = (0 + 0) / 2 = 0\<close> and \<open>sigma = mu / 20 = 0\<close>, and the test
  of line 557 passes. Every call of \<open>rand()\<close> returns \<open>2^30\<close>, for which the polar loop
  of \<open>randn\<close> ends at once.
\<close>

definition world_normal :: world where
  "world_normal = world0\<lparr>distribution := dist_normal, mu := 0, sigma := 0,
     min_delay_click := 0, max_delay_click := 0, min_delay_move := 5, max_delay_move := 10,
     rng := (\<lambda>n. 1073741824)\<rparr>"

text \<open>The same for \<open>latency_daemon /dev/input/event5 50 100 0 0 n none 75 0\<close>.\<close>

definition world_hit :: world where
  "world_hit = world0\<lparr>distribution := dist_normal, mu := 75, sigma := 0,
     min_delay_click := 50, max_delay_click := 100, rng := (\<lambda>n. 1073741824)\<rparr>"

subsection \<open>Concrete events and worlds\<close>

text \<open>
  A press of the left mouse button, the scan code a keyboard reports with a key, and a
  synchronization marker, as \<open>libevdev_next_event\<close> delivers them.
\<close>

definition key_down :: input_event where
  "key_down = \<lparr>time_sec = 1700000000, time_usec = 250000, ie_type = EV_KEY, ie_code = 272,
               ie_value = 1\<rparr>"

definition msc_scan :: input_event where
  "msc_scan = \<lparr>time_sec = 1700000000, time_usec = 250000, ie_type = EV_MSC, ie_code = 4,
               ie_value = 589825\<rparr>"

definition syn_report :: input_event where
  "syn_report = \<lparr>time_sec = 1700000000, time_usec = 250000, ie_type = EV_SYN,
                 ie_code = SYN_REPORT, ie_value = 0\<rparr>"

text \<open>Two events as the loop of \<open>main\<close> stores them, and the vector that holds them.\<close>

definition logged1 :: delayed_event where
  "logged1 = \<lparr>ev_fd = - 1, ev_type = 1, ev_code = 272, ev_value = 1, ev_delay = 50,
              ev_timestamp = 1700000000250\<rparr>"

definition logged2 :: delayed_event where
  "logged2 = \<lparr>ev_fd = - 1, ev_type = 2, ev_code = 0, ev_value = - 3, ev_delay = 0,
              ev_timestamp = 1700000000258\<rparr>"

definition world_logged :: world where
  "world_logged = world0\<lparr>ev := foldl append_to_vector (init_vector 10) [logged1, logged2]\<rparr>"

text \<open>
  The device delivers a button press and is then gone; the device is gone at once; the
  device delivers a scan code while the heap block of the event holds a delay of 7; the
  device delivers a marker.
\<close>

definition world_gone :: world where
  "world_gone = world0\<lparr>evdev := [(0, Some key_down), (- 19, None), (- 19, None)]\<rparr>"

definition world_msc :: world where
  "world_msc = world0\<lparr>evdev := [(0, Some msc_scan)],
                        heap := (\<lambda>n. zero_event\<lparr>ev_delay := 7\<rparr>)\<rparr>"

definition world_syn :: world where
  "world_syn = world0\<lparr>evdev := [(0, Some syn_report)]\<rparr>"

definition world_unplugged :: world where
  "world_unplugged = world0\<lparr>evdev := [(- 19, None)]\<rparr>"

text \<open>The device reports dropped events and is gone while the program resynchronises.\<close>

definition world_resync :: world where
  "world_resync = world0\<lparr>evdev := [(1, Some syn_report), (- 19, None)]\<rparr>"

section \<open>Properties of the delay model\<close>

lemma rand_range: "0 \<le> fst (rand w) \<and> fst (rand w) \<le> RAND_MAX"
  by (simp add: rand_def RAND_MAX_def)

lemma wrap32_id: "is_int x \<Longrightarrow> wrap32 x = x"
  by (simp add: wrap32_def is_int_def INT_MIN_def INT_MAX_def)

text \<open>
  The uniform branch, \<open>min + (rand() % (max - min))\<close>. Where \<open>max - min\<close> leaves the
  range of \<open>int\<close> the wrapped divisor is negative, the remainder is still at most
  \<open>rand()\<close>, and the sum stays below \<open>max\<close>.
\<close>

lemma linear_range:
  assumes "mn < mx" "is_int mn" "is_int mx" "0 \<le> r" "r \<le> RAND_MAX"
  shows "mn \<le> wrap32 (mn + c_rem r (wrap32 (mx - mn))) \<and>
         wrap32 (mn + c_rem r (wrap32 (mx - mn))) < mx"
proof -
  define D where "D = mx - mn"
  have D: "1 \<le> D" "D \<le> 4294967295"
    using assms by (simp_all add: D_def is_int_def INT_MIN_def INT_MAX_def)
  have r: "r < 2147483648" using assms by (simp add: RAND_MAX_def)
  have rem: "0 \<le> c_rem r (wrap32 D) \<and> c_rem r (wrap32 D) < D"
  proof (cases "D < 2147483648")
    case True
    then have "wrap32 D = D" using D by (simp add: wrap32_def)
    then show ?thesis using D assms(4) by (cases "r = 0") (simp_all add: c_rem_def)
  next
    case False
    have "(D - 2147483648 + 4294967296) mod 4294967296 = (D - 2147483648) mod 4294967296"
      by (rule mod_add_self2)
    also have "\<dots> = D - 2147483648"
      using False D by simp
    finally have "(D + 2147483648) mod 4294967296 = D - 2147483648"
      by (simp add: add.commute)
    then have w: "wrap32 D = D - 4294967296" by (simp add: wrap32_def)
    have "\<bar>r\<bar> mod \<bar>D - 4294967296\<bar> \<le> \<bar>r\<bar>"
      by (rule zmod_le_nonneg_dividend) simp
    then show ?thesis using D assms(4) r False w by (cases "r = 0") (simp_all add: c_rem_def)
  qed
  then have "mn \<le> mn + c_rem r (wrap32 D) \<and> mn + c_rem r (wrap32 D) < mx"
    by (simp add: D_def)
  moreover from this have "is_int (mn + c_rem r (wrap32 D))"
    using assms by (simp add: is_int_def)
  ultimately show ?thesis by (simp add: wrap32_id D_def)
qed

text \<open>
  Claim C6. For a range with \<open>min = max\<close>, \<open>calculate_delay\<close> returns that value,
  whatever the distribution, the parameters of the normal distribution and the state of
  the generator are; it draws no random number and prints nothing, so the world is
  the one it was called in.
\<close>

theorem C6_constant_delay: "calculate_delay m m w = Some (m, w)"
  by (simp add: calculate_delay_def)

text \<open>
  Claim C7. In uniform mode, for \<open>int\<close> values \<open>min < max\<close> and any state of the
  generator, \<open>calculate_delay\<close> returns, and its result \<open>r\<close> satisfies
  \<open>min \<le> r < max\<close>.
\<close>

theorem C7_uniform_in_range:
  "distribution w = dist_linear \<Longrightarrow> mn < mx \<Longrightarrow> is_int mn \<Longrightarrow> is_int mx \<Longrightarrow>
   \<exists>r w'. calculate_delay mn mx w = Some (r, w') \<and> mn \<le> r \<and> r < mx"
  using linear_range [of mn mx "fst (rand w)"] rand_range [of w]
  by (simp add: calculate_delay_def)

theorem C7_uniform_in_range_witness:
  "distribution world0 = dist_linear \<and> (10::int) < 20 \<and> is_int 10 \<and> is_int 20 \<and>
   (\<exists>r w'. calculate_delay 10 20 world0 = Some (r, w') \<and> 10 \<le> r \<and> r < 20)"
proof -
  have d: "distribution world0 = dist_linear" by (simp add: world0_def)
  have i: "is_int 10" "is_int 20" by (simp_all add: is_int_def INT_MIN_def INT_MAX_def)
  show ?thesis using C7_uniform_in_range [OF d _ i] d i by simp
qed

section \<open>The truncated normal distribution\<close>

lemma normal_loop_induct [consumes 1, case_names step]:
  assumes "normal_loop mn mx x w = Some y"
    and "\<And>f mn mx x w y.
          (\<And>mn mx x w y. f mn mx x w = Some y \<Longrightarrow> P mn mx x w y) \<Longrightarrow>
          (if x < mn \<or> mx < x
           then Option.bind (randn (mu w) (sigma w) w) (\<lambda>p. f mn mx (fst p) (snd p))
           else Some (x, w)) = Some y \<Longrightarrow> P mn mx x w y"
  shows "P mn mx x w y"
proof (rule normal_loop.raw_induct [of P "(((mn, mx), x), w)" y, simplified])
  show "normal_loop mn mx x w = Some y" by (rule assms(1))
next
  fix f mn mx x w y
  assume "\<And>mn mx x w y. f mn mx x w = Some y \<Longrightarrow> P mn mx x w y"
    and "(if x < mn \<or> mx < x
           then Option.bind (randn (mu w) (sigma w) w) (\<lambda>p. f mn mx (fst p) (snd p))
           else Some (x, w)) = Some y"
  then show "P mn mx x w y" by (rule assms(2))
qed

lemma randn_polar_frame:
  assumes "randn_polar w = Some y"
  shows "tasks (snd (snd (snd y))) = tasks w \<and> inputEvent (snd (snd (snd y))) = inputEvent w \<and>
         ev (snd (snd (snd y))) = ev w \<and> files (snd (snd (snd y))) = files w \<and>
         mu (snd (snd (snd y))) = mu w \<and> sigma (snd (snd (snd y))) = sigma w"
proof (rule randn_polar.raw_induct
    [where P = "\<lambda>w y. tasks (snd (snd (snd y))) = tasks w \<and>
                        inputEvent (snd (snd (snd y))) = inputEvent w \<and>
                        ev (snd (snd (snd y))) = ev w \<and> files (snd (snd (snd y))) = files w \<and>
         mu (snd (snd (snd y))) = mu w \<and> sigma (snd (snd (snd y))) = sigma w"])
  show "randn_polar w = Some y" by (rule assms)
next
  fix f w y
  assume IH: "\<And>x y. f x = Some y \<Longrightarrow>
                 tasks (snd (snd (snd y))) = tasks x \<and> inputEvent (snd (snd (snd y))) = inputEvent x \<and>
                 ev (snd (snd (snd y))) = ev x \<and> files (snd (snd (snd y))) = files x \<and>
                 mu (snd (snd (snd y))) = mu x \<and> sigma (snd (snd (snd y))) = sigma x"
    and eq: "(let U1 = - 1 + (real_of_int (fst (rand w)) / real_of_int RAND_MAX) * 2;
                  w1 = snd (rand w);
                  U2 = - 1 + (real_of_int (fst (rand w1)) / real_of_int RAND_MAX) * 2;
                  w2 = snd (rand w1);
                  W = U1 ^ 2 + U2 ^ 2
              in if W \<ge> 1 \<or> W = 0 then f w2 else Some (U1, U2, W, w2)) = Some y"
  show "tasks (snd (snd (snd y))) = tasks w \<and> inputEvent (snd (snd (snd y))) = inputEvent w \<and>
        ev (snd (snd (snd y))) = ev w \<and> files (snd (snd (snd y))) = files w \<and>
         mu (snd (snd (snd y))) = mu w \<and> sigma (snd (snd (snd y))) = sigma w"
  proof (cases "f (snd (rand (snd (rand w)))) = Some y")
    case True
    from IH [OF True] show ?thesis by (simp add: rand_def)
  next
    case False
    with eq show ?thesis
      by (auto simp: Let_def rand_def split: if_splits)
  qed
qed

lemma randn_frame:
  "randn m s w = Some (x, w') \<Longrightarrow>
   tasks w' = tasks w \<and> inputEvent w' = inputEvent w \<and> ev w' = ev w \<and> files w' = files w \<and>
   mu w' = mu w \<and> sigma w' = sigma w"
  by (auto simp: randn_def Let_def split: if_splits option.splits dest: randn_polar_frame)

lemma randn_sigma0:
  "randn m 0 w = Some (x, w') \<Longrightarrow> x = double_to_int m"
  by (auto simp: randn_def Let_def split: if_splits option.splits)

lemma normal_loop_range:
  "normal_loop mn mx x w = Some y \<Longrightarrow> mn \<le> fst y \<and> fst y \<le> mx"
proof (induction rule: normal_loop_induct)
  case (step f mn mx x w y)
  then show ?case
    by (cases y) (fastforce split: if_splits simp: bind_eq_Some_conv)
qed

lemma normal_loop_never:
  "normal_loop mn mx x w = Some y \<Longrightarrow>
   sigma w = 0 \<Longrightarrow> (x < mn \<or> x > mx) \<Longrightarrow>
   (double_to_int (mu w) < mn \<or> double_to_int (mu w) > mx) \<Longrightarrow> False"
proof (induction rule: normal_loop_induct)
  case (step f mn mx x w y)
  from step.hyps step.prems(2) obtain x' w'
    where p: "randn (mu w) (sigma w) w = Some (x', w')" "f mn mx x' w' = Some y"
    by (auto simp: bind_eq_Some_conv split: if_splits)
  from p step.prems(1) have "x' = double_to_int (mu w)" by (auto dest: randn_sigma0)
  moreover from p have "mu w' = mu w \<and> sigma w' = sigma w" by (auto dest: randn_frame)
  ultimately show ?case using step.IH [OF p(2)] step.prems by auto
qed

text \<open>
  Counterexample to claim C8 as stated: with mean 0 and standard deviation 0, the values
  the program computes for the click range \<open>(0, 0)\<close>, every draw of \<open>randn\<close> is 0,
  and the computation for the motion range \<open>(5, 10)\<close> never returns.
\<close>

theorem C8_normal_counterexample: "calculate_delay 5 10 world_normal = None"
proof (cases "normal_loop 5 10 (- 1) world_normal")
  case None
  then show ?thesis by (simp add: calculate_delay_def world_normal_def world0_def)
next
  case (Some y)
  from normal_loop_never [OF Some] show ?thesis
    by (simp add: world_normal_def world0_def double_to_int_def is_int_def INT_MIN_def INT_MAX_def)
qed

lemma normal_loop_hit:
  "draws n w = Some (x, w1) \<Longrightarrow> mn \<le> x \<Longrightarrow> x \<le> mx \<Longrightarrow> \<exists>r. normal_loop mn mx x0 w = Some r"
proof (induction n arbitrary: w x0)
  case 0
  then show ?case
    by (subst normal_loop.simps, subst normal_loop.simps) (simp add: )
next
  case (Suc n)
  from Suc.prems(1) obtain p where p: "randn (mu w) (sigma w) w = Some p" "draws n (snd p) = Some (x, w1)"
    by (auto simp: bind_eq_Some_conv)
  from Suc.IH [OF p(2) Suc.prems(2,3), of "fst p"] p(1) show ?case
    by (subst normal_loop.simps) simp
qed

lemma calculate_delay_normal_range:
  "distribution w = dist_normal \<Longrightarrow> calculate_delay mn mx w = Some (x, w') \<Longrightarrow>
   mn \<le> x \<and> x \<le> mx"
  by (auto simp: calculate_delay_def split: if_splits option.splits dest: normal_loop_range)

lemma calculate_delay_normal_hit:
  assumes "distribution w = dist_normal" "draws n w = Some (x, w1)" "mn \<le> x" "x \<le> mx"
  shows "\<exists>r. calculate_delay mn mx w = Some r"
proof -
  obtain r where "normal_loop mn mx (- 1) w = Some r"
    using normal_loop_hit [OF assms(2-4)] by blast
  then show ?thesis
    using assms(1) by (auto simp: calculate_delay_def split: prod.splits)
qed

text \<open>
  Claim C8, amended. In truncated-normal mode a value that \<open>calculate_delay\<close> returns
  lies in \<open>[min, max]\<close>, and \<open>calculate_delay\<close> returns as soon as one of the coming
  draws of \<open>randn\<close> lies in \<open>[min, max]\<close>. The loop has no bound on its iterations.
\<close>

theorem C8_normal_amended:
  "distribution w = dist_normal \<Longrightarrow>
   (\<forall>x w'. calculate_delay mn mx w = Some (x, w') \<longrightarrow> mn \<le> x \<and> x \<le> mx) \<and>
   (\<forall>n x w1. draws n w = Some (x, w1) \<and> mn \<le> x \<and> x \<le> mx \<longrightarrow>
      (\<exists>r. calculate_delay mn mx w = Some r))"
  using calculate_delay_normal_range [of w mn mx] calculate_delay_normal_hit [of w _ _ _ mn mx]
  by blast

lemma polar_hit: "\<exists>w2. randn_polar world_hit = Some (1 / 2147483647, 1 / 2147483647, 2 / 4611686014132420609, w2)"
  apply (subst randn_polar.simps)
  apply (simp add: world_hit_def world0_def rand_def RAND_MAX_def Let_def power2_eq_square)
  done

lemma world_hit_fields:
  "randn_call world_hit = 0" "mu world_hit = 75" "sigma world_hit = 0"
  "distribution world_hit = dist_normal"
  by (simp_all add: world_hit_def world0_def)

lemma double_to_int_75: "double_to_int 75 = 75"
  by (simp add: double_to_int_def is_int_def INT_MIN_def INT_MAX_def)

lemma draws_hit: "\<exists>w1. draws 0 world_hit = Some (75, w1)"
proof -
  obtain w2 where "randn_polar world_hit = Some (1 / 2147483647, 1 / 2147483647, 2 / 4611686014132420609, w2)" using polar_hit by blast
  then show ?thesis
    by (simp add: randn_def Let_def world_hit_fields double_to_int_75)
qed

theorem C8_normal_amended_witness:
  "distribution world_hit = dist_normal \<and> (\<exists>w1. draws 0 world_hit = Some (75, w1)) \<and> (50::int) \<le> 75 \<and> (75::int) \<le> 100 \<and>
  (\<exists>x w'. calculate_delay 50 100 world_hit = Some (x, w') \<and> 50 \<le> x \<and> x \<le> 100)"
proof -
  have d: "distribution world_hit = dist_normal" by (rule world_hit_fields)
  from draws_hit obtain w1 where h: "draws 0 world_hit = Some (75, w1)" by blast
  have i: "draws 0 world_hit = Some (75, w1) \<and> (50::int) \<le> 75 \<and> (75::int) \<le> 100"
    using h by simp
  from C8_normal_amended [OF d, of 50 100] i have
    "\<exists>r. calculate_delay 50 100 world_hit = Some r" by blast
  then obtain x w' where r: "calculate_delay 50 100 world_hit = Some (x, w')" by auto
  with C8_normal_amended [OF d, of 50 100] have "50 \<le> x \<and> x \<le> 100" by blast
  with r d draws_hit show ?thesis by simp
qed


section \<open>The audit log\<close>

lemma nl_notin_show_nat: "CHR 0x0A \<notin> set (show_nat n)"
proof (induction n rule: show_nat.induct)
  case (1 n)
  have d: "\<And>k. k < 10 \<Longrightarrow> ''0123456789'' ! k \<noteq> CHR 0x0A"
  proof -
    fix k :: nat assume "k < 10"
    then have "''0123456789'' ! k \<in> set ''0123456789''" by (intro nth_mem) simp
    then show "''0123456789'' ! k \<noteq> CHR 0x0A" by auto
  qed
  show ?case
  proof (cases "n < 10")
    case True
    then show ?thesis using d [of n] by (subst show_nat.simps) simp
  next
    case False
    then show ?thesis using "1.IH" d [of "n mod 10"] by (subst show_nat.simps) simp
  qed
qed

lemma nl_notin_show_int: "CHR 0x0A \<notin> set (show_int i)"
  by (simp add: show_int_def nl_notin_show_nat)

lemma no_nl_show_nat: "filter (\<lambda>c. c = CHR 0x0A) (show_nat n) = []"
  using nl_notin_show_nat [of n] by (auto simp: filter_empty_conv)

lemma no_nl_show_int: "filter (\<lambda>c. c = CHR 0x0A) (show_int i) = []"
  using nl_notin_show_int [of i] by (auto simp: filter_empty_conv)

lemma format_event_one_line:
  "length (filter (\<lambda>c. c = CHR 0x0A) (format_event e)) = 1"
  by (simp add: format_event_def nl_def no_nl_show_nat no_nl_show_int)

lemma lines_count:
  "length (filter (\<lambda>c. c = CHR 0x0A) (concat (map format_event es))) = length es"
  by (induction es) (simp_all add: format_event_one_line)

lemma append_to_vector_foldl:
  "vec_used v = length (vec_events v) \<Longrightarrow>
   vec_used (foldl append_to_vector v es) = length (vec_events v) + length es \<and>
   vec_events (foldl append_to_vector v es) = vec_events v @ es"
  by (induction es arbitrary: v) (simp_all add: append_to_vector_def Let_def)

text \<open>
  Claim C9. For a buffer that holds the events \<open>es\<close>, appended in this order to the
  vector of \<open>init_vector(&ev, 10)\<close>, \<open>write_event_log\<close> appends one line per event,
  \<open>timestamp;delay;type;value;code\<close> with the fields of that event, in the order of
  \<open>es\<close>, to what the file held; the header is written before them exactly when
  the file did not exist; the vector is empty afterwards. The log file is assumed to
  be one that can be opened and is not a FIFO.
\<close>

theorem C9_write_event_log:
  assumes "ev w = foldl append_to_vector (init_vector 10) es"
    and "log_file \<notin> unwritable w" and "files w log_file \<noteq> Some Fifo"
  shows "\<exists>w'. write_event_log w = Some w' \<and>
     files w' log_file =
       Some (Regular ((case files w log_file of Some (Regular c) \<Rightarrow> c | _ \<Rightarrow> header) @
                      concat (map format_event es))) \<and>
     length (filter (\<lambda>c. c = CHR 0x0A) (concat (map format_event es))) = length es \<and>
     vec_used (ev w') = 0 \<and> vec_events (ev w') = []"
proof -
  have v: "vec_used (ev w) = length es" "vec_events (ev w) = es"
    using append_to_vector_foldl [of "init_vector 10" es] assms(1)
    by (simp_all add: init_vector_def)
  show ?thesis
  proof (cases "files w log_file")
    case None
    then show ?thesis using assms(2) v lines_count [of es]
      by (simp add: write_event_log_def fappend_def free_vector_def)
  next
    case (Some node)
    with assms(3) obtain c where "node = Regular c" by (cases node) auto
    with Some show ?thesis using assms(2) v lines_count [of es]
      by (simp add: write_event_log_def fappend_def free_vector_def)
  qed
qed


lemma format_logged:
  "format_event logged1 @ format_event logged2 =
     ''1700000000250;50;1;1;272'' @ nl @ ''1700000000258;0;2;-3;0'' @ nl"
  by (simp add: format_event_def logged1_def logged2_def show_int_def show_nat.simps)

theorem C9_write_event_log_witness:
  "ev world_logged = foldl append_to_vector (init_vector 10) [logged1, logged2] \<and>
   log_file \<notin> unwritable world_logged \<and> files world_logged log_file \<noteq> Some Fifo \<and>
   (\<exists>w'. write_event_log world_logged = Some w' \<and>
      files w' log_file =
        Some (Regular (''timestamp;delay;type;value;code'' @ nl @
                       ''1700000000250;50;1;1;272'' @ nl @ ''1700000000258;0;2;-3;0'' @ nl)) \<and>
      vec_used (ev w') = 0 \<and> vec_events (ev w') = [])"
proof -
  have h: "ev world_logged = foldl append_to_vector (init_vector 10) [logged1, logged2]"
    "log_file \<notin> unwritable world_logged" "files world_logged log_file \<noteq> Some Fifo"
    by (simp_all add: world_logged_def world0_def)
  have f: "files world_logged log_file = None"
    by (simp add: world_logged_def world0_def)
  have t: "(case files world_logged log_file of Some (Regular c) \<Rightarrow> c | _ \<Rightarrow> header) @
             concat (map format_event [logged1, logged2]) =
           ''timestamp;delay;type;value;code'' @ nl @
           ''1700000000250;50;1;1;272'' @ nl @ ''1700000000258;0;2;-3;0'' @ nl"
    using format_logged by (simp add: f header_def)
  from C9_write_event_log [OF h] obtain w' where w': "write_event_log world_logged = Some w'"
    "files w' log_file =
       Some (Regular ((case files world_logged log_file of Some (Regular c) \<Rightarrow> c | _ \<Rightarrow> header) @
                      concat (map format_event [logged1, logged2])))"
    "vec_used (ev w') = 0" "vec_events (ev w') = []"
    by blast
  from w'(2) have "files w' log_file =
      Some (Regular (''timestamp;delay;type;value;code'' @ nl @
                     ''1700000000250;50;1;1;272'' @ nl @ ''1700000000258;0;2;-3;0'' @ nl))"
    by (simp only: t)
  with w'(1,3,4) h show ?thesis by blast
qed

section \<open>Capture and scheduling\<close>

lemma get_event_frame:
  "get_event w = Some (err, w1) \<Longrightarrow>
   ev w1 = ev w \<and> tasks w1 = tasks w \<and> files w1 = files w \<and> (err = - 1 \<or> err = 1)"
  by (auto simp: get_event_def Let_def printf_def split: list.splits option.splits if_splits)

text \<open>
  Counterexample to claim C1 as stated: the device delivers a button press and is gone
  from the second iteration on. After three iterations the process is still in the loop
  of \<open>main\<close>, the event is still in the buffer, and no log file has been written.
\<close>

theorem C1_device_gone_counterexample:
  "(case main_loop [Tick 1, Tick 1, Tick 1] world_gone of
      Running w \<Rightarrow> vec_used (ev w) = 1 \<and> files w log_file = None \<and> length (tasks w) = 1
    | _ \<Rightarrow> False)"
  by (simp add: loop_body_def get_event_def world_gone_def world0_def key_down_def
      LIBEVDEV_READ_STATUS_SYNC_def ENODEV_def EV_SYN_def EV_KEY_def EV_REL_def
      schedule_def malloc_def assign_delay_def Let_def zero_event_def calculate_delay_def
      printf_def append_to_vector_def init_vector_def)

lemma get_event_gone:
  "evdev w = (- ENODEV, eo) # q \<Longrightarrow>
   get_event w =
     Some (- 1, printf (''Device disconnected: (19) No such device'' @ nl)
                  (w\<lparr>inputEvent := (case eo of None \<Rightarrow> inputEvent w | Some e \<Rightarrow> e), evdev := q\<rparr>))"
  by (cases q) (simp_all add: get_event_def Let_def LIBEVDEV_READ_STATUS_SYNC_def ENODEV_def)

lemma get_event_minus1:
  assumes "get_event w = Some (- 1, w1)"
  shows "ev w1 = ev w \<and> tasks w1 = tasks w \<and> files w1 = files w \<and>
         (\<exists>pre. out w1 = out w @ pre @ ''Device disconnected: (19) No such device'' @ nl)"
proof -
  from assms obtain x q where x: "evdev w = x # q"
    by (auto simp: get_event_def split: list.splits)
  let ?e = "case snd x of None \<Rightarrow> inputEvent w | Some e' \<Rightarrow> e'"
  from assms x obtain rc' e' q' where s: "sync_loop (fst x) ?e q = Some (rc', e', q')"
    by (auto simp: get_event_def Let_def split: option.splits)
  from assms x s have g: "rc' = - ENODEV"
    by (auto simp: get_event_def Let_def split: if_splits)
  show ?thesis
  proof (cases "fst x = LIBEVDEV_READ_STATUS_SYNC")
    case True
    with assms x s g have "w1 = printf (''Device disconnected: (19) No such device'' @ nl)
        ((printf (''Warning, syn dropped: (-1) Unknown error -1'' @ nl) w)\<lparr>inputEvent := e', evdev := q'\<rparr>)"
      by (simp add: get_event_def Let_def)
    then show ?thesis by (simp add: printf_def)
  next
    case False
    with assms x s g have "w1 = printf (''Device disconnected: (19) No such device'' @ nl)
        (w\<lparr>inputEvent := e', evdev := q'\<rparr>)"
      by (simp add: get_event_def Let_def)
    then have "out w1 = out w @ [] @ ''Device disconnected: (19) No such device'' @ nl \<and>
       ev w1 = ev w \<and> tasks w1 = tasks w \<and> files w1 = files w" by (simp add: printf_def)
    then show ?thesis by blast
  qed
qed

lemma loop_gone:
  "evdev w = (- ENODEV, eo) # q \<Longrightarrow> r \<noteq> 0 \<Longrightarrow>
   main_loop (Tick r # os) w =
     main_loop os (printf (''Device disconnected: (19) No such device'' @ nl)
       (w\<lparr>inputEvent := (case eo of None \<Rightarrow> inputEvent w | Some e \<Rightarrow> e), evdev := q\<rparr>))"
  using get_event_gone [of w eo q] by (simp add: loop_body_def)

lemma loop_minus1:
  "get_event w = Some (- 1, w1) \<Longrightarrow> r \<noteq> 0 \<Longrightarrow>
   main_loop (Tick r # os) w = main_loop os w1 \<and>
   ev w1 = ev w \<and> tasks w1 = tasks w \<and> files w1 = files w \<and>
   (\<exists>pre. out w1 = out w @ pre @ ''Device disconnected: (19) No such device'' @ nl)"
  using get_event_minus1 [of w w1] by (simp add: loop_body_def)

lemma get_event_resync_gone:
  assumes "evdev w = (rc, eo) # q"
    and "sync_loop rc (case eo of None \<Rightarrow> inputEvent w | Some e \<Rightarrow> e) q = Some (- ENODEV, e', q')"
  shows "get_event w =
     Some (- 1, printf (''Device disconnected: (19) No such device'' @ nl)
                  ((if rc = LIBEVDEV_READ_STATUS_SYNC
                    then printf (''Warning, syn dropped: (-1) Unknown error -1'' @ nl) w
                    else w)\<lparr>inputEvent := e', evdev := q'\<rparr>))"
  using assms by (simp add: get_event_def Let_def)

lemma loop_resync_gone:
  assumes "evdev w = (rc, eo) # q"
    and "sync_loop rc (case eo of None \<Rightarrow> inputEvent w | Some e \<Rightarrow> e) q = Some (- ENODEV, e', q')"
    and "r \<noteq> 0"
  shows "main_loop (Tick r # os) w =
     main_loop os (printf (''Device disconnected: (19) No such device'' @ nl)
                  ((if rc = LIBEVDEV_READ_STATUS_SYNC
                    then printf (''Warning, syn dropped: (-1) Unknown error -1'' @ nl) w
                    else w)\<lparr>inputEvent := e', evdev := q'\<rparr>))"
  using get_event_resync_gone [OF assms(1,2)] assms(3) by (simp add: loop_body_def)

text \<open>
  Claim C1, amended. When \<open>libevdev_next_event\<close> reports \<open>-ENODEV\<close>, at once or at
  the end of a resynchronisation, \<open>get_event\<close> prints
  \<open>Device disconnected: (19) No such device\<close> and returns \<open>-1\<close>, and the loop of \<open>main\<close>
  goes on with the next read of the clock in a world that differs only by the lines
  printed, the event queue and \<open>inputEvent\<close>. Whenever \<open>get_event\<close> returns \<open>-1\<close> the
  line has been printed, the iteration schedules nothing and leaves the buffer of
  events, the threads and the files as they are, so that the log is not written, and
  the loop goes on.
\<close>

theorem C1_device_gone_amended:
  "(evdev w = (- ENODEV, eo) # q \<and> r \<noteq> 0 \<longrightarrow>
      main_loop (Tick r # os) w =
        main_loop os (printf (''Device disconnected: (19) No such device'' @ nl)
          (w\<lparr>inputEvent := (case eo of None \<Rightarrow> inputEvent w | Some e \<Rightarrow> e), evdev := q\<rparr>))) \<and>
   (evdev w = (rc, eo) # q \<and>
    sync_loop rc (case eo of None \<Rightarrow> inputEvent w | Some e \<Rightarrow> e) q = Some (- ENODEV, e', q') \<and>
    r \<noteq> 0 \<longrightarrow>
      main_loop (Tick r # os) w =
        main_loop os (printf (''Device disconnected: (19) No such device'' @ nl)
          ((if rc = LIBEVDEV_READ_STATUS_SYNC
            then printf (''Warning, syn dropped: (-1) Unknown error -1'' @ nl) w
            else w)\<lparr>inputEvent := e', evdev := q'\<rparr>))) \<and>
   (get_event w = Some (- 1, w1) \<and> r \<noteq> 0 \<longrightarrow>
      main_loop (Tick r # os) w = main_loop os w1 \<and>
      ev w1 = ev w \<and> tasks w1 = tasks w \<and> files w1 = files w \<and>
      (\<exists>pre. out w1 = out w @ pre @ ''Device disconnected: (19) No such device'' @ nl))"
  using loop_gone [of w eo q r os] loop_minus1 [of w w1 r os]
    loop_resync_gone [of w rc eo q e' q' r os] by blast

lemma get_event_unplugged:
  "get_event world_unplugged =
     Some (- 1, printf (''Device disconnected: (19) No such device'' @ nl) (world0\<lparr>evdev := []\<rparr>))"
  by (simp add: get_event_def world_unplugged_def world0_def Let_def
      LIBEVDEV_READ_STATUS_SYNC_def ENODEV_def printf_def)

lemma sync_resync:
  "sync_loop 1 (case Some syn_report of None \<Rightarrow> inputEvent world_resync | Some e \<Rightarrow> e) [(- 19, None)] =
     Some (- ENODEV, syn_report, [])"
  by (simp add: LIBEVDEV_READ_STATUS_SYNC_def ENODEV_def)

theorem C1_device_gone_amended_witness:
  "evdev world_unplugged = (- ENODEV, None) # [] \<and> (1::int) \<noteq> 0 \<and>
   get_event world_unplugged =
     Some (- 1, printf (''Device disconnected: (19) No such device'' @ nl) (world0\<lparr>evdev := []\<rparr>)) \<and>
   main_loop [Tick 1] world_unplugged =
     Running (printf (''Device disconnected: (19) No such device'' @ nl) (world0\<lparr>evdev := []\<rparr>)) \<and>
   out (printf (''Device disconnected: (19) No such device'' @ nl) (world0\<lparr>evdev := []\<rparr>)) =
     ''Device disconnected: (19) No such device'' @ nl \<and>
   files (printf (''Device disconnected: (19) No such device'' @ nl) (world0\<lparr>evdev := []\<rparr>)) log_file = None \<and>
   ev (printf (''Device disconnected: (19) No such device'' @ nl) (world0\<lparr>evdev := []\<rparr>)) =
     ev world_unplugged \<and>
   evdev world_resync = (1, Some syn_report) # [(- 19, None)] \<and>
   sync_loop 1 (case Some syn_report of None \<Rightarrow> inputEvent world_resync | Some e \<Rightarrow> e) [(- 19, None)] =
     Some (- ENODEV, syn_report, []) \<and>
   main_loop [Tick 1] world_resync =
     Running (world0\<lparr>inputEvent := syn_report,
       out := ''Warning, syn dropped: (-1) Unknown error -1'' @ nl @
              ''Device disconnected: (19) No such device'' @ nl\<rparr>)"
proof -
  have h: "evdev world_unplugged = (- ENODEV, None) # []"
    by (simp add: world_unplugged_def ENODEV_def)
  have one: "(1::int) \<noteq> 0" by simp
  from C1_device_gone_amended [where w = world_unplugged and eo = None and q = "[]" and r = 1 and os = "[]"] h one
  have a: "main_loop [Tick 1] world_unplugged =
      main_loop [] (printf (''Device disconnected: (19) No such device'' @ nl)
        (world_unplugged\<lparr>inputEvent := (case None of None \<Rightarrow> inputEvent world_unplugged | Some e \<Rightarrow> e),
                         evdev := []\<rparr>))"
    by blast
  have b: "main_loop [Tick 1] world_unplugged =
     Running (printf (''Device disconnected: (19) No such device'' @ nl) (world0\<lparr>evdev := []\<rparr>))"
    unfolding a by (simp add: world_unplugged_def)
  have o: "out (printf (''Device disconnected: (19) No such device'' @ nl) (world0\<lparr>evdev := []\<rparr>)) =
     ''Device disconnected: (19) No such device'' @ nl"
    "files (printf (''Device disconnected: (19) No such device'' @ nl) (world0\<lparr>evdev := []\<rparr>)) log_file = None"
    by (simp_all add: printf_def world0_def)
  from C1_device_gone_amended [where w = world_unplugged and r = 1 and os = "[]" and
      ?w1.0 = "printf (''Device disconnected: (19) No such device'' @ nl) (world0\<lparr>evdev := []\<rparr>)"]
    get_event_unplugged one
  have c: "ev (printf (''Device disconnected: (19) No such device'' @ nl) (world0\<lparr>evdev := []\<rparr>)) =
     ev world_unplugged"
    by blast
  have h2: "evdev world_resync = (1, Some syn_report) # [(- 19, None)]"
    by (simp add: world_resync_def)
  from C1_device_gone_amended [where w = world_resync and rc = 1 and eo = "Some syn_report" and q = "[(- 19, None)]"
      and e' = syn_report and q' = "[]" and r = 1 and os = "[]"] h2 sync_resync one
  have a2: "main_loop [Tick 1] world_resync =
      main_loop [] (printf (''Device disconnected: (19) No such device'' @ nl)
          ((if (1::int) = LIBEVDEV_READ_STATUS_SYNC
            then printf (''Warning, syn dropped: (-1) Unknown error -1'' @ nl) world_resync
            else world_resync)\<lparr>inputEvent := syn_report, evdev := []\<rparr>))"
    by blast
  have b2: "main_loop [Tick 1] world_resync =
     Running (world0\<lparr>inputEvent := syn_report,
       out := ''Warning, syn dropped: (-1) Unknown error -1'' @ nl @
              ''Device disconnected: (19) No such device'' @ nl\<rparr>)"
    unfolding a2 by (simp add: world_resync_def world0_def printf_def LIBEVDEV_READ_STATUS_SYNC_def)
  from h one get_event_unplugged b o c h2 sync_resync b2 show ?thesis by blast
qed


text \<open>
  Claim C2 fails on the code. The device delivers an event of type \<open>EV_MSC\<close>; lines
  612-613 assign \<open>event->delay\<close> for \<open>EV_KEY\<close> and \<open>EV_REL\<close> only, so the thread is
  created with the delay the heap block held, here 7, not 0.
\<close>

theorem C2_unassigned_delay:
  "map_option (\<lambda>w. map ev_delay (tasks w)) (loop_body world_msc) = Some [7]"
  by (simp add: loop_body_def get_event_def world_msc_def world0_def msc_scan_def
      LIBEVDEV_READ_STATUS_SYNC_def ENODEV_def EV_SYN_def EV_MSC_def EV_KEY_def EV_REL_def
      schedule_def malloc_def assign_delay_def Let_def zero_event_def)

lemma normal_loop_frame:
  "normal_loop mn mx x w = Some y \<Longrightarrow>
   tasks (snd y) = tasks w \<and> inputEvent (snd y) = inputEvent w \<and> ev (snd y) = ev w \<and>
   files (snd y) = files w"
proof (induction rule: normal_loop_induct)
  case (step f mn mx x w y)
  show ?case
  proof (cases "x < mn \<or> mx < x")
    case True
    with step.hyps obtain x' w'
      where p: "randn (mu w) (sigma w) w = Some (x', w')" "f mn mx x' w' = Some y"
      by (auto simp: bind_eq_Some_conv)
    from step.IH [OF p(2)] randn_frame [OF p(1)] show ?thesis by simp
  next
    case False
    with step.hyps show ?thesis by auto
  qed
qed

lemma calculate_delay_frame:
  "calculate_delay mn mx w = Some (x, w') \<Longrightarrow>
   tasks w' = tasks w \<and> inputEvent w' = inputEvent w \<and> ev w' = ev w \<and> files w' = files w"
  by (auto simp: calculate_delay_def rand_def printf_def
      split: if_splits option.splits dest: normal_loop_frame)

lemma schedule_task:
  assumes "schedule w = Some w'"
  shows "\<exists>e. tasks w' = tasks w @ [e] \<and> ev_type e = ie_type (inputEvent w) \<and>
             ev_code e = ie_code (inputEvent w) \<and> ev_value e = ie_value (inputEvent w) \<and>
             ev w' = append_to_vector (ev w) e"
proof -
  let ?e1 = "(heap w 0)\<lparr>ev_fd := virtual_fd w, ev_type := ie_type (inputEvent w),
                 ev_code := ie_code (inputEvent w), ev_value := ie_value (inputEvent w)\<rparr>"
  let ?w1 = "w\<lparr>heap := (\<lambda>n. heap w (Suc n))\<rparr>"
  from assms obtain e2 w2 where a: "assign_delay ?e1 ?w1 = Some (e2, w2)"
    by (auto simp: schedule_def malloc_def Let_def split: option.splits)
  then have "ev_type e2 = ev_type ?e1 \<and> ev_code e2 = ev_code ?e1 \<and> ev_value e2 = ev_value ?e1 \<and>
             tasks w2 = tasks w \<and> ev w2 = ev w"
    by (auto simp: assign_delay_def split: if_splits dest: calculate_delay_frame)
  with assms a show ?thesis
    by (auto simp: schedule_def malloc_def Let_def)
qed

lemma loop_body_tasks:
  assumes l: "loop_body w = Some w'"
  shows "tasks w' = tasks w \<or> (\<exists>e. tasks w' = tasks w @ [e] \<and> ev_type e \<noteq> EV_SYN)"
proof -
  from l obtain r v where g: "get_event w = Some (r, v)"
    by (auto simp: loop_body_def split: option.splits)
  show ?thesis
  proof (cases "r > - 1 \<and> ie_type (inputEvent v) \<noteq> EV_SYN")
    case True
    with l g have "schedule v = Some w'" by (simp add: loop_body_def)
    from schedule_task [OF this] True get_event_frame [OF g] show ?thesis by auto
  next
    case False
    with l g have "w' = v" by (auto simp: loop_body_def)
    with get_event_frame [OF g] show ?thesis by simp
  qed
qed

lemma loop_body_syn:
  "get_event w = Some (err, w1) \<Longrightarrow> ie_type (inputEvent w1) = EV_SYN \<Longrightarrow>
   loop_body w = Some w1 \<and> tasks w1 = tasks w"
  using get_event_frame [of w err w1] by (simp add: loop_body_def)

lemma thread_writes:
  "filter is_write (invoke_delayed_evdev_event e rc) =
     [Uinput_write_event (ev_type e) (ev_code e) (ev_value e),
      Uinput_write_event EV_SYN SYN_REPORT 0] \<and>
   (\<exists>us. hd (invoke_delayed_evdev_event e rc) = Usleep us)"
  by (simp add: invoke_delayed_evdev_event_def is_write_def Let_def)

lemma thread_program:
  "invoke_delayed_evdev_event e rc =
     Usleep (nat (wrap32 (wrap32 (ev_delay e) * 1000) mod 4294967296)) #
     Uinput_write_event (ev_type e) (ev_code e) (ev_value e) #
     (if rc \<noteq> 0 then [Printf_write_failed (- rc)] else []) @
     [Uinput_write_event EV_SYN SYN_REPORT 0]"
  by (simp add: invoke_delayed_evdev_event_def Let_def)

lemma thread_sleep:
  assumes "0 \<le> ev_delay e" "ev_delay e \<le> 2147483"
  shows "hd (invoke_delayed_evdev_event e rc) = Usleep (nat (ev_delay e * 1000))"
proof -
  have "is_int (ev_delay e)" "is_int (ev_delay e * 1000)"
    using assms by (simp_all add: is_int_def INT_MIN_def INT_MAX_def)
  then have "wrap32 (wrap32 (ev_delay e) * 1000) = ev_delay e * 1000"
    by (simp add: wrap32_id)
  moreover have "(ev_delay e * 1000) mod 4294967296 = ev_delay e * 1000"
    using assms by simp
  ultimately show ?thesis by (simp add: thread_program)
qed

text \<open>
  Claim C10. An iteration of the loop of \<open>main\<close> creates at most one thread, and never
  one for an event of type \<open>EV_SYN\<close>: when the event read is a marker the iteration
  creates none. A thread does this and nothing else, in this order: it sleeps for
  the delay of its event, \<open>eventDelay * 1000\<close> microseconds (for a delay of 0 to
  2147483 ms exactly that many), writes its own event to the virtual device, reports a
  failed write, and writes one \<open>EV_SYN\<close>/\<open>SYN_REPORT\<close>, whatever the first write
  returned.
\<close>

theorem C10_markers:
  "(loop_body w = Some w' \<longrightarrow>
      tasks w' = tasks w \<or> (\<exists>e. tasks w' = tasks w @ [e] \<and> ev_type e \<noteq> EV_SYN)) \<and>
   (get_event w = Some (err, w1) \<and> ie_type (inputEvent w1) = EV_SYN \<longrightarrow>
      loop_body w = Some w1 \<and> tasks w1 = tasks w) \<and>
   invoke_delayed_evdev_event e rc =
     Usleep (nat (wrap32 (wrap32 (ev_delay e) * 1000) mod 4294967296)) #
     Uinput_write_event (ev_type e) (ev_code e) (ev_value e) #
     (if rc \<noteq> 0 then [Printf_write_failed (- rc)] else []) @
     [Uinput_write_event EV_SYN SYN_REPORT 0] \<and>
   (0 \<le> ev_delay e \<and> ev_delay e \<le> 2147483 \<longrightarrow>
      hd (invoke_delayed_evdev_event e rc) = Usleep (nat (ev_delay e * 1000))) \<and>
   filter is_write (invoke_delayed_evdev_event e rc) =
     [Uinput_write_event (ev_type e) (ev_code e) (ev_value e),
      Uinput_write_event EV_SYN SYN_REPORT 0] \<and>
   (\<exists>us. hd (invoke_delayed_evdev_event e rc) = Usleep us)"
  using loop_body_tasks [of w w'] loop_body_syn [of w err w1] thread_writes [of e rc]
    thread_program [of e rc] thread_sleep [of e rc]
  by blast

lemma get_event_syn:
  "get_event world_syn = Some (1, world0\<lparr>inputEvent := syn_report\<rparr>)"
  by (simp add: get_event_def world_syn_def world0_def Let_def
      LIBEVDEV_READ_STATUS_SYNC_def ENODEV_def)

theorem C10_markers_witness:
  "get_event world_syn = Some (1, world0\<lparr>inputEvent := syn_report\<rparr>) \<and>
   ie_type (inputEvent (world0\<lparr>inputEvent := syn_report\<rparr>)) = EV_SYN \<and>
   loop_body world_syn = Some (world0\<lparr>inputEvent := syn_report\<rparr>) \<and>
   tasks (world0\<lparr>inputEvent := syn_report\<rparr>) = tasks world_syn \<and>
   0 \<le> ev_delay logged1 \<and> ev_delay logged1 \<le> 2147483 \<and>
   invoke_delayed_evdev_event logged1 0 =
     [Usleep 50000, Uinput_write_event 1 272 1, Uinput_write_event 0 0 0]"
proof -
  have t: "ie_type (inputEvent (world0\<lparr>inputEvent := syn_report\<rparr>)) = EV_SYN"
    by (simp add: syn_report_def)
  have d: "0 \<le> ev_delay logged1 \<and> ev_delay logged1 \<le> 2147483"
    by (simp add: logged1_def)
  from C10_markers [of world_syn "world0\<lparr>inputEvent := syn_report\<rparr>" 1
      "world0\<lparr>inputEvent := syn_report\<rparr>" logged1 0]
  have "loop_body world_syn = Some (world0\<lparr>inputEvent := syn_report\<rparr>) \<and>
        tasks (world0\<lparr>inputEvent := syn_report\<rparr>) = tasks world_syn"
    and "invoke_delayed_evdev_event logged1 0 =
     Usleep (nat (wrap32 (wrap32 (ev_delay logged1) * 1000) mod 4294967296)) #
     Uinput_write_event (ev_type logged1) (ev_code logged1) (ev_value logged1) #
     (if (0::int) \<noteq> 0 then [Printf_write_failed (- 0)] else []) @
     [Uinput_write_event EV_SYN SYN_REPORT 0]"
    and "hd (invoke_delayed_evdev_event logged1 0) = Usleep (nat (ev_delay logged1 * 1000))"
    using get_event_syn t d by blast+
  then show ?thesis using get_event_syn t d
    by (simp add: logged1_def EV_SYN_def SYN_REPORT_def)
qed


section \<open>The reconfiguration channel\<close>

text \<open>
  Claim C3 fails on the code. Line 537 tests \<open>!strcmp(argv[7], "none")\<close>, which holds
  when the argument is \<open>none\<close>: with the argument \<open>none\<close> a FIFO named \<open>none\<close> is
  created and the listener thread started; with the path \<open>/tmp/delay_fifo\<close> no FIFO is
  created and no thread started.
\<close>

theorem C3_fifo_argument_inverted:
  "(case main_fifo_arg [''latency_daemon'', ''/dev/input/event5'', ''50'', ''50'', ''0'', ''0'',
                        ''l'', ''none''] world0 of
      (r, w) \<Rightarrow> r = None \<and> fifo_path w = Some ''none'' \<and> files w ''none'' = Some Fifo \<and>
                fifo_thread w) \<and>
   (case main_fifo_arg [''latency_daemon'', ''/dev/input/event5'', ''50'', ''50'', ''0'', ''0'',
                        ''l'', ''/tmp/delay_fifo''] world0 of
      (r, w) \<Rightarrow> r = None \<and> fifo_path w = None \<and> files w ''/tmp/delay_fifo'' = None \<and>
                \<not> fifo_thread w)"
  by (simp add: main_fifo_arg_def init_fifo_def world0_def Let_def)

text \<open>
  Counterexample to claim C4 as stated: while the message \<open>10 20 0 0\<close> replaces the
  click range \<open>(50, 50)\<close>, the state after the first assignment has the new minimum 10
  with the old maximum 50.
\<close>

theorem C4_replacement_counterexample: "\<not> atomic_replacement world0 10 20 0 0"
  by (simp add: atomic_replacement_def fifo_stores_def run_stores_def delay_config_def world0_def)

text \<open>
  Claim C4, amended. The replacement is six assignments in a row, with no lock. The
  configurations another thread can read are, in this order: the old one; those with
  the first one, two, three new values and the other values old; the four new values
  before the clamps; the one with the click range clamped; the new configuration with
  both ranges clamped, which is the one left when the assignments are over.
\<close>

theorem C4_replacement_amended:
  "map delay_config (store_states (fifo_stores a b c d) w) =
     [(min_delay_click w, max_delay_click w, min_delay_move w, max_delay_move w),
      (a, max_delay_click w, min_delay_move w, max_delay_move w),
      (a, b, min_delay_move w, max_delay_move w),
      (a, b, c, max_delay_move w),
      (a, b, c, d),
      (a, max a b, c, d),
      (a, max a b, c, max c d)] \<and>
   delay_config (run_stores (fifo_stores a b c d) w) = (a, max a b, c, max c d)"
  by (simp add: fifo_stores_def run_stores_def delay_config_def max_def)

text \<open>
  A conversion that stops at a character of the text reads the same when more text
  follows: what \<open>sscanf\<close> finds in a message does not change with the bytes behind it.
\<close>

lemma scan_d_append:
  assumes "scan_d s = Some (v, r)" "r \<noteq> []"
  shows "scan_d (s @ t) = Some (v, r @ t)"
proof -
  define s1 where "s1 = dropWhile isspace s"
  define s2 where "s2 = (case s1 of c # r \<Rightarrow> (if c = CHR ''-'' \<or> c = CHR ''+'' then r else s1) | [] \<Rightarrow> s1)"
  note e = assms(1) [unfolded scan_d_def Let_def, folded s1_def, folded s2_def]
  from e have ds: "takeWhile isdigit s2 \<noteq> []" by (auto split: if_splits)
  from e have r: "r = dropWhile isdigit s2" by (auto split: if_splits)
  from e have v: "v = wrap32 (strtol_value (if (case s1 of c # r \<Rightarrow> c = CHR ''-'' | [] \<Rightarrow> False)
                        then - decimal (takeWhile isdigit s2) else decimal (takeWhile isdigit s2)))"
    by (auto split: if_splits)
  from ds have s2: "s2 \<noteq> []" by auto
  then have s1: "s1 \<noteq> []" by (auto simp: s2_def)
  then have "hd s1 \<in> set s \<and> \<not> isspace (hd s1)"
    unfolding s1_def by (metis dropWhile_eq_Nil_conv hd_dropWhile hd_in_set set_dropWhileD)
  then have a1: "dropWhile isspace (s @ t) = s1 @ t"
    unfolding s1_def by (metis dropWhile_append1)
  from s1 obtain c s1' where c: "s1 = c # s1'" by (cases s1) auto
  have a2: "(case s1 @ t of c # r \<Rightarrow> (if c = CHR ''-'' \<or> c = CHR ''+'' then r else s1 @ t) | [] \<Rightarrow> s1 @ t) = s2 @ t"
    by (simp add: c s2_def)
  have a3: "(case s1 @ t of c # r \<Rightarrow> c = CHR ''-'' | [] \<Rightarrow> False) = (case s1 of c # r \<Rightarrow> c = CHR ''-'' | [] \<Rightarrow> False)"
    by (simp add: c)
  from assms(2) r have "hd r \<in> set s2 \<and> \<not> isdigit (hd r)"
    by (metis dropWhile_eq_Nil_conv hd_dropWhile hd_in_set set_dropWhileD)
  then have a4: "takeWhile isdigit (s2 @ t) = takeWhile isdigit s2"
    and a5: "dropWhile isdigit (s2 @ t) = dropWhile isdigit s2 @ t"
    by (metis takeWhile_append1, metis dropWhile_append1)
  show ?thesis
    unfolding scan_d_def Let_def a1 a2 a3 a4 a5 using ds r v by simp
qed

lemma scan_ints_Nil: "scan_ints n [] = ([], [])"
  by (cases n) (simp_all add: scan_d_def)

lemma scan_ints_length: "length (fst (scan_ints n s)) \<le> n"
  by (induction n arbitrary: s) (auto split: option.splits)

lemma scan_ints_append:
  "length (fst (scan_ints n s)) = n \<Longrightarrow> snd (scan_ints n s) \<noteq> [] \<Longrightarrow>
   scan_ints n (s @ t) = (fst (scan_ints n s), snd (scan_ints n s) @ t)"
proof (induction n arbitrary: s)
  case 0
  then show ?case by simp
next
  case (Suc n)
  from Suc.prems(1) obtain v r where d: "scan_d s = Some (v, r)"
    by (cases "scan_d s") auto
  with Suc.prems have l: "length (fst (scan_ints n r)) = n" and nr: "snd (scan_ints n r) \<noteq> []"
    by simp_all
  from nr have "r \<noteq> []" by (auto simp: scan_ints_Nil)
  from scan_d_append [OF d this] Suc.IH [OF l nr] d show ?case by simp
qed


lemma handle_fifo_step_accept:
  assumes "0 < n"
    and "fst (scan_ints 4 (c_string (take 80 (take (nat n) data @ drop (nat n) (fifo_buffer w))))) = [a, b, c, d]"
  shows "delay_config (handle_fifo_step (n, data) w) = (a, max a b, c, max c d) \<and>
         out (handle_fifo_step (n, data) w) =
           out w @ ''set new values: '' @ show_int a @ '' '' @ show_int (max a b) @ '' '' @
           show_int c @ '' '' @ show_int (max c d) @ nl"
  using assms
  by (simp add: handle_fifo_step_def Let_def delay_config_def fifo_stores_def run_stores_def
      printf_def max_def del: take_append)

lemma handle_fifo_step_reject:
  assumes "0 < n"
    and "length (fst (scan_ints 4 (c_string (take 80 (take (nat n) data @ drop (nat n) (fifo_buffer w)))))) \<noteq> 4"
  shows "delay_config (handle_fifo_step (n, data) w) = delay_config w \<and>
         out (handle_fifo_step (n, data) w) =
           out w @ ''could not set new delays - bad data structure'' @ nl"
  using assms
  by (simp add: handle_fifo_step_def Let_def delay_config_def printf_def del: take_append)

lemma buffer_after_read:
  assumes "length data \<le> 80"
  shows "take 80 (take (nat (int (length data))) data @ drop (nat (int (length data))) buf) =
         data @ take (80 - length data) (drop (length data) buf)"
  using assms by simp

lemma c_string_terminated:
  "CHR 0x00 \<in> set data \<Longrightarrow> c_string (data @ rest) = c_string data"
  by (simp add: c_string_def takeWhile_append1 [where x = "CHR 0x00"])

lemma c_string_unterminated:
  "CHR 0x00 \<notin> set data \<Longrightarrow> c_string (data @ rest) = data @ c_string rest"
  by (induction data) (auto simp: c_string_def)

lemma scan_message_accept:
  assumes "fst (scan_ints 4 (c_string data)) = [a, b, c, d]"
    and "CHR 0x00 \<in> set data \<or> snd (scan_ints 4 (c_string data)) \<noteq> []"
  shows "fst (scan_ints 4 (c_string (data @ rest))) = [a, b, c, d]"
proof (cases "CHR 0x00 \<in> set data")
  case True
  then show ?thesis using assms(1) by (simp add: c_string_terminated)
next
  case False
  then have d: "c_string data = data" by (induction data) (auto simp: c_string_def)
  from assms False d have "length (fst (scan_ints 4 data)) = 4" "snd (scan_ints 4 data) \<noteq> []"
    by simp_all
  from scan_ints_append [OF this] assms(1) d False show ?thesis
    by (simp add: c_string_unterminated)
qed

text \<open>
  A conversion that fails at a character of the text fails the same when more text
  follows.
\<close>

lemma scan_d_mismatch:
  assumes "scan_d r = None" "mismatch r"
  shows "scan_d (r @ t) = None"
proof -
  define r1 where "r1 = dropWhile isspace r"
  define s2 where "s2 = (case r1 of c # r \<Rightarrow> (if c = CHR ''-'' \<or> c = CHR ''+'' then r else r1) | [] \<Rightarrow> r1)"
  note e = assms(1) [unfolded scan_d_def Let_def, folded r1_def, folded s2_def]
  from e have ds: "takeWhile isdigit s2 = []" by (auto split: if_splits)
  from assms(2) have m: "r1 \<noteq> []" "r1 \<noteq> ''-''" "r1 \<noteq> ''+''"
    by (simp_all add: mismatch_def Let_def r1_def)
  from m(1) have "hd r1 \<in> set r \<and> \<not> isspace (hd r1)"
    unfolding r1_def by (metis dropWhile_eq_Nil_conv hd_dropWhile hd_in_set set_dropWhileD)
  then have a1: "dropWhile isspace (r @ t) = r1 @ t"
    unfolding r1_def by (metis dropWhile_append1)
  from m(1) obtain c r1' where c: "r1 = c # r1'" by (cases r1) auto
  have s2ne: "s2 \<noteq> []" using m c by (auto simp: s2_def)
  have a2: "(case r1 @ t of c # r \<Rightarrow> (if c = CHR ''-'' \<or> c = CHR ''+'' then r else r1 @ t) | [] \<Rightarrow> r1 @ t) = s2 @ t"
    by (simp add: c s2_def)
  from ds s2ne have "\<not> isdigit (hd s2)" by (cases s2) (auto split: if_splits)
  with s2ne have a4: "takeWhile isdigit (s2 @ t) = []" by (cases s2) auto
  show ?thesis
    unfolding scan_d_def Let_def a1 a2 a4 by simp
qed

lemma scan_ints_mismatch:
  "length (fst (scan_ints n s)) < n \<Longrightarrow> mismatch (snd (scan_ints n s)) \<Longrightarrow>
   fst (scan_ints n (s @ t)) = fst (scan_ints n s)"
proof (induction n arbitrary: s)
  case 0
  then show ?case by simp
next
  case (Suc n)
  show ?case
  proof (cases "scan_d s")
    case None
    with Suc.prems(2) have "mismatch s" by simp
    from scan_d_mismatch [OF None this] None show ?thesis by simp
  next
    case (Some p)
    obtain v r where p: "p = (v, r)" by (cases p)
    with Some Suc.prems have l: "length (fst (scan_ints n r)) < n" and m: "mismatch (snd (scan_ints n r))"
      by simp_all
    have "r \<noteq> []"
    proof
      assume "r = []"
      with m show False by (simp add: scan_ints_Nil mismatch_def)
    qed
    from scan_d_append [OF Some [unfolded p] this] Suc.IH [OF l m] Some p show ?thesis by simp
  qed
qed

lemma scan_message_reject:
  assumes "length (fst (scan_ints 4 (c_string data))) \<noteq> 4"
    and "CHR 0x00 \<in> set data \<or> mismatch (snd (scan_ints 4 (c_string data)))"
  shows "length (fst (scan_ints 4 (c_string (data @ rest)))) \<noteq> 4"
proof (cases "CHR 0x00 \<in> set data")
  case True
  then show ?thesis using assms(1) by (simp add: c_string_terminated)
next
  case False
  then have d: "c_string data = data" by (induction data) (auto simp: c_string_def)
  from assms(1) scan_ints_length [of 4 "c_string data"] have "length (fst (scan_ints 4 data)) < 4"
    by (simp add: d)
  moreover from assms(2) False d have "mismatch (snd (scan_ints 4 data))" by simp
  ultimately have "fst (scan_ints 4 (data @ c_string rest)) = fst (scan_ints 4 data)"
    by (rule scan_ints_mismatch)
  with assms(1) d False show ?thesis by (simp add: c_string_unterminated)
qed

text \<open>
  Claim C5, amended. For a message of 1 to 80 bytes: if its text begins with four
  integers separated by white space, and the fourth is followed by a further byte of
  the message (the newline of \<open>echo\<close>, or anything else: what follows the fourth
  integer is ignored) or the message holds its terminating \<open>NUL\<close>, the configuration
  becomes these four values, as \<open>%d\<close> converts them, with each maximum raised to its
  minimum, and \<open>set new values\<close> is printed; if its text does not begin with four
  integers, and the scan stops at a character of the message that cannot begin an
  integer or the message holds its terminating \<open>NUL\<close>, the configuration stays as it
  is and \<open>could not set new delays - bad data structure\<close> is printed. Either way the
  listener goes on with the next message.
\<close>

theorem C5_reconfiguration_amended:
  assumes "0 < length data" "length data \<le> 80"
  shows "handle_fifo ((int (length data), data) # ms) w =
           handle_fifo ms (handle_fifo_step (int (length data), data) w) \<and>
         (\<forall>a b c d. fst (scan_ints 4 (c_string data)) = [a, b, c, d] \<and>
              (CHR 0x00 \<in> set data \<or> snd (scan_ints 4 (c_string data)) \<noteq> []) \<longrightarrow>
            delay_config (handle_fifo_step (int (length data), data) w) = (a, max a b, c, max c d) \<and>
            out (handle_fifo_step (int (length data), data) w) =
              out w @ ''set new values: '' @ show_int a @ '' '' @ show_int (max a b) @ '' '' @
              show_int c @ '' '' @ show_int (max c d) @ nl) \<and>
         (length (fst (scan_ints 4 (c_string data))) \<noteq> 4 \<and>
              (CHR 0x00 \<in> set data \<or> mismatch (snd (scan_ints 4 (c_string data)))) \<longrightarrow>
            delay_config (handle_fifo_step (int (length data), data) w) = delay_config w \<and>
            out (handle_fifo_step (int (length data), data) w) =
              out w @ ''could not set new delays - bad data structure'' @ nl)"
proof -
  have n: "0 < int (length data)" using assms(1) by simp
  note b = buffer_after_read [OF assms(2), of "fifo_buffer w"]
  have acc: "\<And>a b c d. fst (scan_ints 4 (c_string data)) = [a, b, c, d] \<Longrightarrow>
      CHR 0x00 \<in> set data \<or> snd (scan_ints 4 (c_string data)) \<noteq> [] \<Longrightarrow>
      delay_config (handle_fifo_step (int (length data), data) w) = (a, max a b, c, max c d) \<and>
      out (handle_fifo_step (int (length data), data) w) =
        out w @ ''set new values: '' @ show_int a @ '' '' @ show_int (max a b) @ '' '' @
        show_int c @ '' '' @ show_int (max c d) @ nl"
  proof -
    fix a b c d
    assume "fst (scan_ints 4 (c_string data)) = [a, b, c, d]"
      and "CHR 0x00 \<in> set data \<or> snd (scan_ints 4 (c_string data)) \<noteq> []"
    from scan_message_accept [OF this, of "take (80 - length data) (drop (length data) (fifo_buffer w))"]
    have "fst (scan_ints 4 (c_string (take 80 (take (nat (int (length data))) data @
             drop (nat (int (length data))) (fifo_buffer w))))) = [a, b, c, d]"
      by (simp only: b)
    from handle_fifo_step_accept [OF n this]
    show "delay_config (handle_fifo_step (int (length data), data) w) = (a, max a b, c, max c d) \<and>
      out (handle_fifo_step (int (length data), data) w) =
        out w @ ''set new values: '' @ show_int a @ '' '' @ show_int (max a b) @ '' '' @
        show_int c @ '' '' @ show_int (max c d) @ nl" .
  qed
  have rej: "length (fst (scan_ints 4 (c_string data))) \<noteq> 4 \<Longrightarrow>
      CHR 0x00 \<in> set data \<or> mismatch (snd (scan_ints 4 (c_string data))) \<Longrightarrow>
      delay_config (handle_fifo_step (int (length data), data) w) = delay_config w \<and>
      out (handle_fifo_step (int (length data), data) w) =
        out w @ ''could not set new delays - bad data structure'' @ nl"
  proof -
    assume h1: "length (fst (scan_ints 4 (c_string data))) \<noteq> 4"
      and h2: "CHR 0x00 \<in> set data \<or> mismatch (snd (scan_ints 4 (c_string data)))"
    have "length (fst (scan_ints 4 (c_string (take 80 (take (nat (int (length data))) data @
             drop (nat (int (length data))) (fifo_buffer w)))))) \<noteq> 4"
      unfolding b by (rule scan_message_reject [OF h1 h2])
    from handle_fifo_step_reject [OF n this]
    show ?thesis .
  qed
  show ?thesis using acc rej by (simp only: handle_fifo.simps) blast
qed

lemma scan_echo: "scan_ints 4 (''10 20 0 0'' @ nl) = ([10, 20, 0, 0], nl)"
  by (simp add: eval_nat_numeral nl_def scan_d_def isspace_def isdigit_def decimal_def digit_value_def wrap32_def
      strtol_value_def LONG_MIN_def LONG_MAX_def)

lemma scan_partial: "scan_ints 4 ''10 20 0'' = ([10, 20, 0], [])"
  by (simp add: eval_nat_numeral nl_def scan_d_def isspace_def isdigit_def decimal_def digit_value_def wrap32_def
      strtol_value_def LONG_MIN_def LONG_MAX_def)

lemma scan_five: "scan_ints 4 (''1 2 3 4 5'' @ nl) = ([1, 2, 3, 4], '' 5'' @ nl)"
  by (simp add: eval_nat_numeral nl_def scan_d_def isspace_def isdigit_def decimal_def digit_value_def wrap32_def
      strtol_value_def LONG_MIN_def LONG_MAX_def)

text \<open>
  Counterexample to claim C5 as stated: the message \<open>1 2 3 4 5\<close> is not four integers,
  and it replaces the configuration \<open>(50, 50, 0, 0)\<close> by \<open>(1, 2, 3, 4)\<close>.
\<close>

theorem C5_reconfiguration_counterexample:
  "delay_config world0 = (50, 50, 0, 0) \<and>
   delay_config (handle_fifo_step (10, ''1 2 3 4 5'' @ nl) world0) = (1, 2, 3, 4)"
proof -
  have b: "c_string (take 80 (take (nat 10) (''1 2 3 4 5'' @ nl) @ drop (nat 10) (fifo_buffer world0))) = ''1 2 3 4 5'' @ nl"
    by (simp add: world0_def c_string_def nl_def)
  have "fst (scan_ints 4 (c_string (take 80 (take (nat 10) (''1 2 3 4 5'' @ nl) @ drop (nat 10) (fifo_buffer world0))))) = [1, 2, 3, 4]"
    by (simp only: b scan_five fst_conv)
  from handle_fifo_step_accept [OF _ this] show ?thesis
    by (simp add: world0_def delay_config_def)
qed

lemma scan_letters: "scan_ints 4 (''abc'' @ nl) = ([], ''abc'' @ nl)"
  by (simp add: eval_nat_numeral nl_def scan_d_def isspace_def isdigit_def)

lemma mismatch_letters: "mismatch (''abc'' @ nl)"
  by (simp add: nl_def isspace_def mismatch_def)

theorem C5_reconfiguration_amended_witness:
  "0 < length (''10 20 0 0'' @ nl) \<and> length (''10 20 0 0'' @ nl) \<le> 80 \<and>
   fst (scan_ints 4 (c_string (''10 20 0 0'' @ nl))) = [10, 20, 0, 0] \<and>
   snd (scan_ints 4 (c_string (''10 20 0 0'' @ nl))) \<noteq> [] \<and>
   delay_config (handle_fifo_step (10, ''10 20 0 0'' @ nl) world0) = (10, 20, 0, 0) \<and>
   0 < length (''10 20 0'' @ [CHR 0x00]) \<and> length (''10 20 0'' @ [CHR 0x00]) \<le> 80 \<and>
   CHR 0x00 \<in> set (''10 20 0'' @ [CHR 0x00]) \<and>
   length (fst (scan_ints 4 (c_string (''10 20 0'' @ [CHR 0x00])))) \<noteq> 4 \<and>
   delay_config (handle_fifo_step (8, ''10 20 0'' @ [CHR 0x00]) world0) = (50, 50, 0, 0) \<and>
   out (handle_fifo_step (8, ''10 20 0'' @ [CHR 0x00]) world0) =
     ''could not set new delays - bad data structure'' @ nl \<and>
   0 < length (''abc'' @ nl) \<and> length (''abc'' @ nl) \<le> 80 \<and>
   length (fst (scan_ints 4 (c_string (''abc'' @ nl)))) \<noteq> 4 \<and>
   mismatch (snd (scan_ints 4 (c_string (''abc'' @ nl)))) \<and>
   delay_config (handle_fifo_step (4, ''abc'' @ nl) world0) = (50, 50, 0, 0) \<and>
   out (handle_fifo_step (4, ''abc'' @ nl) world0) =
     ''could not set new delays - bad data structure'' @ nl"
proof -
  have p: "0 < length (''10 20 0 0'' @ nl)" "length (''10 20 0 0'' @ nl) \<le> 80"
    by (simp_all add: nl_def)
  have q: "0 < length (''10 20 0'' @ [CHR 0x00])" "length (''10 20 0'' @ [CHR 0x00]) \<le> 80"
    by simp_all
  have u: "0 < length (''abc'' @ nl)" "length (''abc'' @ nl) \<le> 80"
    by (simp_all add: nl_def)
  have l: "int (length (''10 20 0 0'' @ nl)) = 10" "int (length (''10 20 0'' @ [CHR 0x00])) = 8"
    "int (length (''abc'' @ nl)) = 4"
    by (simp_all add: nl_def)
  have c: "c_string (''10 20 0 0'' @ nl) = ''10 20 0 0'' @ nl"
    "c_string (''10 20 0'' @ [CHR 0x00]) = ''10 20 0''"
    "c_string (''abc'' @ nl) = ''abc'' @ nl"
    by (simp_all add: c_string_def nl_def)
  have s1: "fst (scan_ints 4 (c_string (''10 20 0 0'' @ nl))) = [10, 20, 0, 0] \<and>
            (CHR 0x00 \<in> set (''10 20 0 0'' @ nl) \<or>
             snd (scan_ints 4 (c_string (''10 20 0 0'' @ nl))) \<noteq> [])"
    by (simp only: c scan_echo) (simp add: nl_def)
  have s1': "snd (scan_ints 4 (c_string (''10 20 0 0'' @ nl))) \<noteq> []"
    by (simp only: c scan_echo) (simp add: nl_def)
  have s2: "length (fst (scan_ints 4 (c_string (''10 20 0'' @ [CHR 0x00])))) \<noteq> 4 \<and>
            (CHR 0x00 \<in> set (''10 20 0'' @ [CHR 0x00]) \<or>
             mismatch (snd (scan_ints 4 (c_string (''10 20 0'' @ [CHR 0x00])))))"
    by (simp only: c scan_partial) simp
  have s3': "mismatch (snd (scan_ints 4 (c_string (''abc'' @ nl))))"
    by (simp only: c scan_letters snd_conv mismatch_letters)
  have s3'': "length (fst (scan_ints 4 (c_string (''abc'' @ nl)))) \<noteq> 4"
    by (simp only: c scan_letters fst_conv) simp
  from s3' s3'' have s3: "length (fst (scan_ints 4 (c_string (''abc'' @ nl)))) \<noteq> 4 \<and>
            (CHR 0x00 \<in> set (''abc'' @ nl) \<or> mismatch (snd (scan_ints 4 (c_string (''abc'' @ nl)))))"
    by blast
  from C5_reconfiguration_amended [OF p, of "[]" world0] s1
  have a: "delay_config (handle_fifo_step (10, ''10 20 0 0'' @ nl) world0) = (10, max 10 20, 0, max 0 0)"
    unfolding l by blast
  from C5_reconfiguration_amended [OF q, of "[]" world0] s2
  have r: "delay_config (handle_fifo_step (8, ''10 20 0'' @ [CHR 0x00]) world0) = delay_config world0 \<and>
           out (handle_fifo_step (8, ''10 20 0'' @ [CHR 0x00]) world0) =
             out world0 @ ''could not set new delays - bad data structure'' @ nl"
    unfolding l by blast
  from C5_reconfiguration_amended [OF u, of "[]" world0] s3
  have r': "delay_config (handle_fifo_step (4, ''abc'' @ nl) world0) = delay_config world0 \<and>
           out (handle_fifo_step (4, ''abc'' @ nl) world0) =
             out world0 @ ''could not set new delays - bad data structure'' @ nl"
    unfolding l by blast
  have d: "delay_config world0 = (50, 50, 0, 0)" "out world0 = []"
    by (simp_all add: delay_config_def world0_def)
  have z: "CHR 0x00 \<in> set (''10 20 0'' @ [CHR 0x00])" by simp
  from a have a': "delay_config (handle_fifo_step (10, ''10 20 0 0'' @ nl) world0) = (10, 20, 0, 0)"
    by simp
  from r r' have r2: "delay_config (handle_fifo_step (8, ''10 20 0'' @ [CHR 0x00]) world0) = (50, 50, 0, 0)"
    "out (handle_fifo_step (8, ''10 20 0'' @ [CHR 0x00]) world0) =
       ''could not set new delays - bad data structure'' @ nl"
    "delay_config (handle_fifo_step (4, ''abc'' @ nl) world0) = (50, 50, 0, 0)"
    "out (handle_fifo_step (4, ''abc'' @ nl) world0) =
       ''could not set new delays - bad data structure'' @ nl"
    unfolding d by simp_all
  from p q u s1 s1' s2 s3 s3' a' r2 z show ?thesis by blast
qed

text \<open>
  A number beyond the range of \<open>long\<close>: \<open>strtol\<close> saturates, and the \<open>int\<close> stored is
  \<open>-1\<close>.
\<close>

lemma saturated_number:
  "delay_config (handle_fifo_step (27, ''99999999999999999999 5 0 0'' @ nl) world0) = (- 1, 5, 0, 0)"
proof -
  have b: "c_string (take 80 (take (nat 27) (''99999999999999999999 5 0 0'' @ nl) @
             drop (nat 27) (fifo_buffer world0))) = ''99999999999999999999 5 0 0'' @ nl"
    by (simp add: world0_def c_string_def nl_def)
  have "fst (scan_ints 4 (''99999999999999999999 5 0 0'' @ nl)) = [- 1, 5, 0, 0]"
    by (simp add: eval_nat_numeral nl_def scan_d_def isspace_def isdigit_def decimal_def
        digit_value_def wrap32_def strtol_value_def LONG_MIN_def LONG_MAX_def)
  then have "fst (scan_ints 4 (c_string (take 80 (take (nat 27) (''99999999999999999999 5 0 0'' @ nl) @
             drop (nat 27) (fifo_buffer world0))))) = [- 1, 5, 0, 0]"
    by (simp only: b)
  from handle_fifo_step_accept [OF _ this] show ?thesis by simp
qed

text \<open>
  \<open>read\<close> does not terminate the buffer and \<open>handle_fifo\<close> does not clear it: a
  message without a \<open>NUL\<close> that ends before its fourth integer is complete is scanned
  together with what earlier messages left behind it. After the message
  \<open>10 20 30 40\<close> the message \<open>10 20 0\<close>, both as \<open>echo\<close> writes them, is read as
  \<open>10 20 0 40\<close> and accepted.
\<close>

lemma stale_buffer_accepted:
  "delay_config (handle_fifo [(12, ''10 20 30 40'' @ nl), (8, ''10 20 0'' @ nl)] world0) =
     (10, 20, 0, 40)"
  by (simp add: handle_fifo_step_def Let_def world0_def c_string_def nl_def
      eval_nat_numeral scan_d_def isspace_def isdigit_def decimal_def digit_value_def wrap32_def
      strtol_value_def LONG_MIN_def LONG_MAX_def
      fifo_stores_def run_stores_def printf_def delay_config_def)


end
